theory Spec2Isabelle
  imports Main
begin

section \<open>Values, parameter bags and the two object utilities\<close>

text \<open>
  Objects of the program live at addresses: \<open>sid\<close> for state descriptors, \<open>cid\<close> for
  controller instances, \<open>hid\<close> for the state handler functions a controller declares.
  A parameter bag is a JavaScript object with string keys; its values are opaque to the
  controller, except for the \<open>$info\<close> entry, which holds the pair
  \<open>{newState, previousState}\<close> written by \<open>setState\<close>.
  The two utilities that copy parameter bags, \<open>mixIn\<close> and \<open>fillIn\<close>, are not part of
  the source and are taken by their documented contract, on the keys stored in a bag.
  The state table is a plain object read by \<open>this._states[name]\<close>: besides
  the declared keys, such a read finds the names every plain object inherits from
  \<open>Object.prototype\<close> (\<open>constructor\<close>, \<open>toString\<close>, ...); which names those are is a
  fact of the JavaScript runtime, given by the environment below.
\<close>

type_synonym sid = nat
type_synonym cid = nat
type_synonym hid = nat

datatype val = Str string | Num int | Info sid "sid option"

type_synonym params = "string \<rightharpoonup> val"

text \<open>\<open>mout/object/mixIn\<close>: every key of the source is written into the target.\<close>

definition mixIn :: "params \<Rightarrow> params \<Rightarrow> params" where
  "mixIn target src = target ++ src"

text \<open>\<open>mout/object/fillIn\<close>: only the keys the object lacks are taken from the defaults.\<close>

definition fillIn :: "params \<Rightarrow> params \<Rightarrow> params" where
  "fillIn obj defaults = defaults ++ obj"

section \<open>Errors, diagnostics and the observable trace\<close>

text \<open>
  Each \<open>throw new Error(...)\<close> of the source is a constructor carrying the strings the
  message is built from; \<open>TypeError\<close> is what the runtime raises when a property of
  \<open>null\<close>/\<open>undefined\<close> is read or a non-function is called; \<open>Thrown\<close> is an exception
  raised by code outside the controller (a handler, the state registry).
\<close>

datatype error =
    InvalidFormat string string
  | MustBeLocal string string
  | NonexistentFunction string string
  | DefaultEmpty string
  | DefaultNonexistent string
  | CannotResolveRelative string string
  | TypeError
  | Thrown string

text \<open>The three \<open>console.warn\<close> sites of the source.\<close>

datatype warning =
    NoDefaultState string
  | UnknownState string string
  | NoChildDeclared string string

text \<open>
  The trace records, in program order, the steps the claims speak about: entering
  \<open>delegateState\<close> of a controller, the assignment of \<open>_previousState\<close>/\<open>_currentState\<close>
  in \<open>_setCurrentState\<close>, the call \<open>state.next()\<close>, the call of a state handler and a
  \<open>console.warn\<close>.
\<close>

datatype event =
    Entered cid
  | Committed cid
  | Advanced sid
  | Invoked cid string
  | Warned warning

section \<open>State descriptors\<close>

text \<open>
  Modelled from the spec: the descriptor class \<open>State\<close> of the state registry is not
  part of the source. The spec gives its contract: a full name (the dot-joined path), a
  parameter mapping, an internal segment cursor; the local name is the segment of the
  full name under the cursor (empty when the cursor is past the last segment).
\<close>

record descriptor =
  st_fullName :: string
  st_cursor :: nat
  st_params :: params

text \<open>
  Modelled from the spec: a full name is a dot-joined path; its segments are the parts
  between the dots.
\<close>

fun splitDots :: "string \<Rightarrow> string \<Rightarrow> string list" where
  "splitDots acc [] = [rev acc]"
| "splitDots acc (c # cs) =
     (if c = CHR ''.'' then rev acc # splitDots [] cs else splitDots (c # acc) cs)"

definition segments :: "string \<Rightarrow> string list" where
  "segments s = splitDots [] s"

text \<open>
  Modelled from the spec: \<open>name()\<close>, the local name, is the segment under the cursor.
\<close>

definition getName :: "descriptor \<Rightarrow> string" where
  "getName d =
     (if st_cursor d < length (segments (st_fullName d))
      then segments (st_fullName d) ! st_cursor d else [])"

text \<open>
  Modelled from the spec: \<open>setFullName(string)\<close> rewrites the full name and leaves the
  cursor and the parameters as they are.
\<close>

definition setFullName :: "string \<Rightarrow> descriptor \<Rightarrow> descriptor" where
  "setFullName n d = d\<lparr>st_fullName := n\<rparr>"

text \<open>
  Modelled from the spec: \<open>advanceCursor()\<close>, which the source calls \<open>next()\<close>, moves
  the cursor one segment on.
\<close>

definition advance :: "descriptor \<Rightarrow> descriptor" where
  "advance d = d\<lparr>st_cursor := Suc (st_cursor d)\<rparr>"

fun indexOf :: "string list \<Rightarrow> string \<Rightarrow> nat option" where
  "indexOf [] n = None"
| "indexOf (x # xs) n = (if x = n then Some 0 else map_option Suc (indexOf xs n))"

text \<open>
  Modelled from the spec: \<open>seekTo(localName)\<close> moves the cursor of the descriptor to the
  segment with that local name and returns the same descriptor (a descriptor without
  such a segment keeps its cursor).
\<close>

definition seekTo :: "string \<Rightarrow> descriptor \<Rightarrow> descriptor" where
  "seekTo n d =
     (case indexOf (segments (st_fullName d)) n of
        None \<Rightarrow> d
      | Some i \<Rightarrow> d\<lparr>st_cursor := i\<rparr>)"

text \<open>
  Modelled from the spec: \<open>isEqual(other, relevantKeys)\<close> compares the local names and
  the parameters under the relevant keys; an empty key list is name-only equality.
\<close>

definition isEqual :: "descriptor \<Rightarrow> descriptor \<Rightarrow> string list \<Rightarrow> bool" where
  "isEqual base d keys =
     (getName base = getName d \<and> list_all (\<lambda>k. st_params base k = st_params d k) keys)"

section \<open>Controllers, the heap and the environment\<close>

datatype member = Function hid | NotCallable

record stateEntry =
  wildcard :: bool
  paramNames :: "string list"
  fn :: member

record defaultState =
  d_name :: string
  d_params :: params

text \<open>
  The fields of a controller instance that the source reads and writes: \<open>$name\<close>,
  \<open>_states\<close> (after \<open>_parseStates\<close>), \<open>_nrStates\<close>, \<open>_defaultState\<close>,
  \<open>_currentState\<close> and \<open>_previousState\<close>.
\<close>

record controller =
  c_name :: string
  c_states :: "string \<rightharpoonup> stateEntry"
  c_nrStates :: nat
  c_defaultState :: "defaultState option"
  c_currentState :: "sid option"
  c_previousState :: "sid option"

text \<open>
  The heap holds every controller and every descriptor object, the allocation pointer
  for descriptors (a new object gets the address \<open>nextSid\<close>), and the two pieces of the
  state registry a controller reads: the current descriptor (\<open>getCurrent()\<close>) and the
  set of registered full names (\<open>isRegistered\<close>).
\<close>

record heap =
  ctrls :: "cid \<Rightarrow> controller"
  descs :: "sid \<Rightarrow> descriptor"
  nextSid :: sid
  regCurrent :: "sid option"
  registered :: "string \<Rightarrow> bool"

record run =
  hp :: heap
  trace :: "event list"

text \<open>
  What the source takes from outside: the \<open>has('debug')\<close> build flag, the registry's
  \<open>isValid\<close> and \<open>setCurrent\<close>, and the bodies of the state handlers. \<open>setCurrent\<close> and
  the handlers are arbitrary code: they may change the heap in any way or throw. A
  handler is called on the controller (\<open>this\<close>) with the parameter bag of a descriptor,
  given here by the address of the descriptor. \<open>inherited\<close> tells the property names
  that a plain object \<open>{}\<close> inherits from \<open>Object.prototype\<close> in the runtime.
\<close>

record env =
  debug :: bool
  inherited :: "string \<Rightarrow> bool"
  isValid :: "string \<Rightarrow> bool"
  setCurrent :: "string \<Rightarrow> params \<Rightarrow> params \<Rightarrow> heap \<Rightarrow> error + (bool \<times> heap)"
  handler :: "hid \<Rightarrow> cid \<Rightarrow> sid \<Rightarrow> heap \<Rightarrow> error + heap"

section \<open>The state table builder: \<open>_parseStates\<close> and \<open>_parseDefaultState\<close>\<close>

text \<open>
  Strings are lists of 8-bit code units; among them the line terminators (which \<open>.\<close> of
  a regular expression does not match) are LF and CR, and the white space of \<open>\s\<close> is
  space, TAB, LF, VT, FF, CR and NBSP.
\<close>

definition lineTerminator :: "char \<Rightarrow> bool" where
  "lineTerminator c = (c = CHR 0x0A \<or> c = CHR 0x0D)"

definition whiteSpace :: "char \<Rightarrow> bool" where
  "whiteSpace c =
     (c = CHR 0x20 \<or> c = CHR 0x09 \<or> c = CHR 0x0A \<or> c = CHR 0x0B \<or> c = CHR 0x0C
      \<or> c = CHR 0x0D \<or> c = CHR 0xA0)"

text \<open>
  \<open>Controller._stateParamsRegExp = /\((.+?)\)/\<close>, the expression used when a subclass
  does not supply its own. After an opening parenthesis the lazy group takes one
  character and then as few more as possible up to a closing one.
\<close>

fun lazyGroup :: "string \<Rightarrow> string \<Rightarrow> string option" where
  "lazyGroup acc [] = None"
| "lazyGroup acc (c # cs) =
     (if c = CHR 0x29 then Some (rev acc)
      else if lineTerminator c then None
      else lazyGroup (c # acc) cs)"

definition groupAfterOpen :: "string \<Rightarrow> string option" where
  "groupAfterOpen cs =
     (case cs of
        [] \<Rightarrow> None
      | c # rest \<Rightarrow> if lineTerminator c then None else lazyGroup [c] rest)"

text \<open>\<open>key.match(regExp)\<close>: the group of the leftmost match, if there is a match.\<close>

fun matchParams :: "string \<Rightarrow> string option" where
  "matchParams [] = None"
| "matchParams (c # cs) =
     (if c = CHR 0x28
      then (case groupAfterOpen cs of Some g \<Rightarrow> Some g | None \<Rightarrow> matchParams cs)
      else matchParams cs)"

text \<open>\<open>matches[1].split(/\s*,\s*/)\<close>.\<close>

function splitCommas :: "string \<Rightarrow> string \<Rightarrow> string list" where
  "splitCommas acc [] = [rev acc]"
| "splitCommas acc (c # cs) =
     (case dropWhile whiteSpace (c # cs) of
        [] \<Rightarrow> splitCommas (c # acc) cs
      | x # rest \<Rightarrow>
          if x = CHR 0x2C then rev acc # splitCommas [] (dropWhile whiteSpace rest)
          else splitCommas (c # acc) cs)"
  by pat_completeness auto
termination
proof (relation "measure (\<lambda>(acc, s). length s)")
  fix acc :: string and c :: char and cs :: string and x :: char and rest :: string
  assume a: "dropWhile whiteSpace (c # cs) = x # rest"
  have "length (dropWhile whiteSpace rest) \<le> length rest"
    by (rule length_dropWhile_le)
  moreover have "length (x # rest) \<le> length (c # cs)"
    using length_dropWhile_le [of whiteSpace "c # cs"] a by simp
  ultimately show "((([]::string), dropWhile whiteSpace rest), (acc, c # cs))
      \<in> measure (\<lambda>(acc, s). length s)"
    by simp
qed auto

text \<open>
  The head of the loop body of \<open>_parseStates\<close>: the local name, the wildcard flag and the
  relevant parameters of a declared key.
\<close>

definition parseKey :: "string \<Rightarrow> string \<times> bool \<times> string list" where
  "parseKey key =
     (case matchParams key of
        Some g \<Rightarrow>
          (takeWhile (\<lambda>c. c \<noteq> CHR 0x28) key,
           g = ''*'',
           if g = ''*'' then [] else splitCommas [] g)
      | None \<Rightarrow> (key, False, []))"

text \<open>
  A declared handler is a method name, a function, or anything else; a method name is
  looked up on the instance (\<open>this[func]\<close>).
\<close>

datatype handlerDecl = MethodName string | Callable hid | Other

definition resolveHandler :: "(string \<Rightarrow> member) \<Rightarrow> handlerDecl \<Rightarrow> member" where
  "resolveHandler members func =
     (case func of
        MethodName m \<Rightarrow> members m
      | Callable h \<Rightarrow> Function h
      | Other \<Rightarrow> NotCallable)"

text \<open>
  The \<open>for (key in states)\<close> loop, over the declared table in enumeration order. The
  arguments \<open>nm\<close> and \<open>members\<close> are \<open>this.$name\<close> and the instance's properties.
\<close>

fun parseStatesLoop ::
  "env \<Rightarrow> string \<Rightarrow> (string \<Rightarrow> member) \<Rightarrow> (string \<times> handlerDecl) list \<Rightarrow>
   (string \<rightharpoonup> stateEntry) \<Rightarrow> error + (string \<rightharpoonup> stateEntry)" where
  "parseStatesLoop e nm members [] tbl = Inr tbl"
| "parseStatesLoop e nm members ((key0, func0) # rest) tbl =
     (case parseKey key0 of (key, wc, ps) \<Rightarrow>
        if debug e \<and> \<not> isValid e key then Inl (InvalidFormat key nm)
        else if debug e \<and> CHR ''.'' \<in> set key then Inl (MustBeLocal key nm)
        else if debug e \<and> resolveHandler members func0 = NotCallable
        then Inl (NonexistentFunction key nm)
        else parseStatesLoop e nm members rest
               (tbl(key \<mapsto> \<lparr>wildcard = wc, paramNames = ps,
                             fn = resolveHandler members func0\<rparr>)))"

definition parseStates ::
  "env \<Rightarrow> string \<Rightarrow> (string \<Rightarrow> member) \<Rightarrow> (string \<times> handlerDecl) list \<Rightarrow>
   error + (string \<rightharpoonup> stateEntry) \<times> nat" where
  "parseStates e nm members states =
     (case parseStatesLoop e nm members states Map.empty of
        Inl err \<Rightarrow> Inl err
      | Inr tbl \<Rightarrow> Inr (tbl, length states))"

text \<open>
  The truth value of \<open>this._states[name]\<close>, the test the source makes at lines 141,
  275 and 457. The table is the plain object of line 211: the read gives the entry of a
  declared name, the inherited property (a function or an object, so a truthy value)
  for an undeclared name that \<open>Object.prototype\<close> defines, and \<open>undefined\<close> otherwise.
\<close>

definition found :: "env \<Rightarrow> (string \<rightharpoonup> stateEntry) \<Rightarrow> string \<Rightarrow> bool" where
  "found e tbl name = (tbl name \<noteq> None \<or> inherited e name)"

text \<open>The declared \<open>_defaultState\<close>: absent, a string, or an object.\<close>

datatype defaultDecl = NoDefault | DefaultName string | DefaultObject string params

definition parseDefaultState ::
  "env \<Rightarrow> string \<Rightarrow> (string \<rightharpoonup> stateEntry) \<Rightarrow> defaultDecl \<Rightarrow>
   error + defaultState option" where
  "parseDefaultState e nm tbl decl =
     (let d = (case decl of
                 NoDefault \<Rightarrow> None
               | DefaultName n \<Rightarrow> Some \<lparr>d_name = n, d_params = Map.empty\<rparr>
               | DefaultObject n p \<Rightarrow> Some \<lparr>d_name = n, d_params = p\<rparr>)
      in case d of
           None \<Rightarrow> Inr None
         | Some ds \<Rightarrow>
             if debug e \<and> d_name ds = [] then Inl (DefaultEmpty nm)
             else if debug e \<and> \<not> found e tbl (d_name ds) then Inl (DefaultNonexistent nm)
             else Inr (Some ds))"

text \<open>What a controller class declares, and the constructor.\<close>

record classDecl =
  decl_name :: string
  decl_states :: "(string \<times> handlerDecl) list"
  decl_default :: defaultDecl
  decl_members :: "string \<Rightarrow> member"

definition Controller :: "env \<Rightarrow> classDecl \<Rightarrow> error + controller" where
  "Controller e d =
     (case parseStates e (decl_name d) (decl_members d) (decl_states d) of
        Inl err \<Rightarrow> Inl err
      | Inr (tbl, n) \<Rightarrow>
          (case parseDefaultState e (decl_name d) tbl (decl_default d) of
             Inl err \<Rightarrow> Inl err
           | Inr ds \<Rightarrow>
               Inr \<lparr>c_name = decl_name d, c_states = tbl, c_nrStates = n,
                    c_defaultState = ds, c_currentState = None,
                    c_previousState = None\<rparr>))"

section \<open>The name resolver: \<open>_resolveFullState\<close>\<close>

text \<open>
  The object \<open>{name, fullName, params}\<close> the resolver returns; \<open>m_name\<close> is \<open>None\<close> when
  the object has no \<open>name\<close> field.
\<close>

record stateMeta =
  m_name :: "string option"
  m_fullName :: string
  m_params :: params

text \<open>
  The links of the component tree are read, never written, by the controller: the
  chain of \<open>_uplink\<close>s of a node is given as the list of its ancestors, nearest first
  (empty when \<open>_uplink\<close> is null), each a controller or some other joint
  (\<open>instanceof Controller\<close> fails); the ordered \<open>_downlinks\<close> of a node are a list of
  subtrees.
\<close>

datatype uplink = UpController cid | UpOther

datatype joint = ControllerNode cid "joint list" | OtherJoint

text \<open>The \<open>while (ancestor && ancestor instanceof Controller)\<close> loop.\<close>

fun walkAncestors :: "heap \<Rightarrow> uplink list \<Rightarrow> stateMeta \<Rightarrow> stateMeta" where
  "walkAncestors h [] st = st"
| "walkAncestors h (UpOther # ups) st = st"
| "walkAncestors h (UpController a # ups) st =
     (case c_currentState (ctrls h a) of
        None \<Rightarrow> st
      | Some s \<Rightarrow>
          walkAncestors h ups
            (st\<lparr>m_fullName := getName (descs h s) @
                     (if m_fullName st \<noteq> [] then ''.'' @ m_fullName st else []),
                 m_params := fillIn (m_params st) (st_params (descs h s))\<rparr>))"

text \<open>
  The local branch up to the end of the ancestor walk: the initial object built from
  the name and the controller's current parameters, then the walk.
\<close>

definition localState :: "heap \<Rightarrow> cid \<Rightarrow> uplink list \<Rightarrow> string \<Rightarrow> stateMeta" where
  "localState h c ups name =
     walkAncestors h ups
       \<lparr>m_name = Some name, m_fullName = name,
        m_params = (case c_currentState (ctrls h c) of
                      None \<Rightarrow> Map.empty
                    | Some s \<Rightarrow> mixIn Map.empty (st_params (descs h s)))\<rparr>"

text \<open>The final step: \<open>if (!state.name && this._defaultState) { ... }\<close>.\<close>

definition useDefaultState :: "defaultState option \<Rightarrow> stateMeta \<Rightarrow> stateMeta" where
  "useDefaultState ds st =
     (case ds of
        None \<Rightarrow> st
      | Some d \<Rightarrow>
          if m_name st = Some [] then
            st\<lparr>m_name := Some (d_name d),
               m_fullName := (if m_fullName st \<noteq> [] then m_fullName st else d_name d),
               m_params := mixIn (m_params st) (d_params d)\<rparr>
          else st)"

text \<open>
  An absent \<open>name\<close> argument is the empty string (\<open>name = name || ''\<close>). In the relative
  branch a non-debug build reaches \<open>this._uplink._resolveFullState\<close> with no controller
  above, which is a \<open>TypeError\<close> of the runtime.
\<close>

fun resolveFullState ::
  "env \<Rightarrow> heap \<Rightarrow> cid \<Rightarrow> uplink list \<Rightarrow> string \<Rightarrow> error + stateMeta" where
  "resolveFullState e h c ups name =
     (if take 1 name = ''/'' then
        Inr \<lparr>m_name = None, m_fullName = drop 1 name, m_params = Map.empty\<rparr>
      else if take 3 name = ''../'' then
        (case ups of
           UpController p # ups' \<Rightarrow>
             (case resolveFullState e h p ups' (drop 3 name) of
                Inl err \<Rightarrow> Inl err
              | Inr st \<Rightarrow> Inr (st\<lparr>m_name := None\<rparr>))
         | _ \<Rightarrow>
             if debug e then Inl (CannotResolveRelative name (c_name (ctrls h c)))
             else Inl TypeError)
      else
        Inr (useDefaultState (c_defaultState (ctrls h c)) (localState h c ups name)))"

text \<open>
  The first two statements of \<open>setState\<close> and of \<open>generateUrl\<close>: resolve, then mix the
  explicit parameters in.
\<close>

definition resolveState ::
  "env \<Rightarrow> heap \<Rightarrow> cid \<Rightarrow> uplink list \<Rightarrow> string \<Rightarrow> params \<Rightarrow> error + stateMeta" where
  "resolveState e h c ups name ps =
     (case resolveFullState e h c ups name of
        Inl err \<Rightarrow> Inl err
      | Inr st \<Rightarrow> Inr (st\<lparr>m_params := mixIn (m_params st) ps\<rparr>))"

section \<open>The equality decider: \<open>_isSameState\<close>\<close>

text \<open>
  A name without an entry in the table gives \<open>stateMeta = {}\<close>: no wildcard and no
  relevant parameters. An undeclared name inherited from \<open>Object.prototype\<close> gives the
  inherited value as \<open>stateMeta\<close>, which has no \<open>wildcard\<close> and no \<open>params\<close> property
  either: the two cases are the one branch \<open>None\<close>.
\<close>

definition isSameState :: "heap \<Rightarrow> cid \<Rightarrow> sid \<Rightarrow> sid option \<Rightarrow> bool" where
  "isSameState h c s baseState =
     (case (case baseState of Some b \<Rightarrow> Some b | None \<Rightarrow> c_currentState (ctrls h c)) of
        None \<Rightarrow> False
      | Some b \<Rightarrow>
          (case c_states (ctrls h c) (getName (descs h s)) of
             None \<Rightarrow> isEqual (descs h b) (descs h s) []
           | Some m \<Rightarrow>
               if wildcard m then False
               else isEqual (descs h b) (descs h s) (paramNames m)))"

section \<open>The delegation engine\<close>

definition warn :: "warning \<Rightarrow> run \<Rightarrow> run" where
  "warn w r = r\<lparr>trace := trace r @ [Warned w]\<rparr>"

text \<open>
  Modelled from the spec: \<open>clone()\<close> produces an independent copy, a new object with
  the contents of the descriptor.
\<close>

definition clone :: "sid \<Rightarrow> heap \<Rightarrow> sid \<times> heap" where
  "clone s h =
     (nextSid h, h\<lparr>descs := (descs h)(nextSid h := descs h s), nextSid := Suc (nextSid h)\<rparr>)"

definition setCurrentState :: "cid \<Rightarrow> sid \<Rightarrow> run \<Rightarrow> run" where
  "setCurrentState c s r =
     (case clone s (hp r) of (a, h1) \<Rightarrow>
        let h2 = h1\<lparr>ctrls := (ctrls h1)
                    (c := (ctrls h1 c)\<lparr>c_previousState := c_currentState (ctrls h1 c),
                                        c_currentState := Some a\<rparr>)\<rparr>;
            h3 = (if regCurrent h2 = Some s
                     \<and> st_fullName (descs h2 s) \<noteq> st_fullName (descs h2 a)
                  then h2\<lparr>descs := (descs h2)
                            (s := setFullName (st_fullName (descs h2 a)) (descs h2 s))\<rparr>
                  else h2)
        in \<lparr>hp = h3, trace = trace r @ [Committed c]\<rparr>)"

text \<open>\<open>state.next()\<close>.\<close>

definition nextState :: "sid \<Rightarrow> run \<Rightarrow> run" where
  "nextState s r =
     \<lparr>hp = (hp r)\<lparr>descs := (descs (hp r))(s := advance (descs (hp r) s))\<rparr>,
      trace = trace r @ [Advanced s]\<rparr>"

text \<open>
  \<open>_performStateChange\<close>. The call \<open>stateMeta.fn.call(...)\<close> is a \<open>TypeError\<close> when the
  name of the current state has no entry (\<open>stateMeta\<close> is \<open>undefined\<close>, or an inherited
  value without an \<open>fn\<close> property) and when the entry's \<open>fn\<close> is not a function.
\<close>

definition performStateChange :: "env \<Rightarrow> cid \<Rightarrow> sid \<Rightarrow> run \<Rightarrow> error + run" where
  "performStateChange e c s r =
     (let r2 = nextState s (setCurrentState c s r); h = hp r2 in
      case c_currentState (ctrls h c) of
        None \<Rightarrow> Inl TypeError
      | Some cur \<Rightarrow>
          (case c_states (ctrls h c) (getName (descs h cur)) of
             None \<Rightarrow> Inl TypeError
           | Some m \<Rightarrow>
               (case fn m of
                  NotCallable \<Rightarrow> Inl TypeError
                | Function f \<Rightarrow>
                    (case handler e f c s h of
                       Inl err \<Rightarrow> Inl err
                     | Inr h' \<Rightarrow>
                         Inr \<lparr>hp = h',
                              trace = trace r2 @ [Invoked c (getName (descs h cur))]\<rparr>))))"

text \<open>
  The argument of \<open>delegateState\<close>: nothing (or any falsy value), a state instance, or
  a parameter bag, which designates the state in its \<open>$info.newState\<close>. Anything that
  does not lead to a state instance fails at the first method call on it.
\<close>

datatype stateArg = Absent | StateObject sid | ParamsBag params

definition pickState :: "heap \<Rightarrow> stateArg \<Rightarrow> sid option" where
  "pickState h a =
     (case a of
        Absent \<Rightarrow> regCurrent h
      | StateObject s \<Rightarrow> Some s
      | ParamsBag p \<Rightarrow> (case p ''$info'' of Some (Info s prev) \<Rightarrow> Some s | _ \<Rightarrow> None))"

definition fillStateIfEmpty :: "controller \<Rightarrow> descriptor \<Rightarrow> descriptor" where
  "fillStateIfEmpty c d =
     (case c_defaultState c of
        None \<Rightarrow> d
      | Some ds \<Rightarrow>
          if getName d = d_name ds then
            d\<lparr>st_params := fillIn (st_params d) (d_params ds)\<rparr>
          else if getName d = [] then
            (setFullName (st_fullName d @ ''.'' @ d_name ds) d)
              \<lparr>st_params := fillIn (st_params d) (d_params ds)\<rparr>
          else d)"

definition fillState :: "cid \<Rightarrow> sid \<Rightarrow> run \<Rightarrow> run" where
  "fillState c s r =
     r\<lparr>hp := (hp r)\<lparr>descs := (descs (hp r))
                  (s := fillStateIfEmpty (ctrls (hp r) c) (descs (hp r) s))\<rparr>\<rparr>"

text \<open>
  The last step of \<open>delegateState\<close>: sync the full name of the controller's current
  state up with the application's one.
\<close>

definition syncFullName :: "cid \<Rightarrow> sid \<Rightarrow> string \<Rightarrow> run \<Rightarrow> run" where
  "syncFullName c s name r =
     (case c_currentState (ctrls (hp r) c) of
        None \<Rightarrow> r
      | Some cur \<Rightarrow>
          if regCurrent (hp r) = Some s \<and> getName (descs (hp r) cur) = name then
            r\<lparr>hp := (hp r)\<lparr>descs := (descs (hp r))
                   (cur := setFullName (st_fullName (descs (hp r) s)) (descs (hp r) cur))\<rparr>\<rparr>
          else r)"

text \<open>
  The test of the \<open>for\<close> loop of \<open>_propagateState\<close> on a child controller: without a
  name, the child has a default state whose full name is registered; with a name,
  \<open>curr._states[name]\<close> is truthy.
\<close>

definition accepts :: "env \<Rightarrow> heap \<Rightarrow> cid \<Rightarrow> string \<Rightarrow> sid \<Rightarrow> bool" where
  "accepts e h k name s =
     (if name = [] then
        (case c_defaultState (ctrls h k) of
           None \<Rightarrow> False
         | Some ds \<Rightarrow> registered h (st_fullName (descs h s) @ ''.'' @ d_name ds))
      else found e (c_states (ctrls h k)) name)"

text \<open>
  \<open>delegateState\<close>, \<open>_propagateState\<close> and its \<open>for\<close> loop over the downlinks. The
  result of \<open>delegateState\<close> is \<open>Some c\<close> for \<open>return this\<close> and \<open>None\<close> for a bare
  \<open>return\<close> (\<open>undefined\<close>).
\<close>

fun delegateState ::
      "env \<Rightarrow> cid \<Rightarrow> joint list \<Rightarrow> stateArg \<Rightarrow> run \<Rightarrow> error + (cid option \<times> run)"
  and propagateState ::
      "env \<Rightarrow> cid \<Rightarrow> joint list \<Rightarrow> sid \<Rightarrow> run \<Rightarrow> error + run"
  and propagateLoop ::
      "env \<Rightarrow> cid \<Rightarrow> string \<Rightarrow> sid \<Rightarrow> joint list \<Rightarrow> run \<Rightarrow> error + run" where
  "delegateState e c kids arg r0 =
     (let r = r0\<lparr>trace := trace r0 @ [Entered c]\<rparr> in
      case pickState (hp r) arg of
        None \<Rightarrow> Inl TypeError
      | Some s \<Rightarrow>
          let r1 = fillState c s r;
              name = getName (descs (hp r1) s)
          in if name = [] then
               Inr (None,
                    if debug e \<and> c_nrStates (ctrls (hp r1) c) \<noteq> 0
                    then warn (NoDefaultState (c_name (ctrls (hp r1) c))) r1 else r1)
             else if \<not> found e (c_states (ctrls (hp r1) c)) name then
               Inr (None,
                    if debug e
                    then warn (UnknownState name (c_name (ctrls (hp r1) c))) r1 else r1)
             else
               (case (if \<not> isSameState (hp r1) c s None
                      then performStateChange e c s r1
                      else propagateState e c kids s r1) of
                  Inl err \<Rightarrow> Inl err
                | Inr r2 \<Rightarrow> Inr (Some c, syncFullName c s name r2)))"
| "propagateState e c kids s r =
     (let r2 = nextState s (setCurrentState c s r) in
      propagateLoop e c (getName (descs (hp r2) s)) s kids r2)"
| "propagateLoop e c name s [] r =
     Inr (if name \<noteq> [] \<and> debug e
          then warn (NoChildDeclared (c_name (ctrls (hp r) c)) name) r else r)"
| "propagateLoop e c name s (OtherJoint # rest) r = propagateLoop e c name s rest r"
| "propagateLoop e c name s (ControllerNode k kk # rest) r =
     (if accepts e (hp r) k name s
      then (case delegateState e k kk (StateObject s) r of
              Inl err \<Rightarrow> Inl err
            | Inr (ret, r') \<Rightarrow> Inr r')
      else propagateLoop e c name s rest r)"

section \<open>\<open>setState\<close>\<close>

text \<open>
  Modelled from the spec: \<open>createDescriptor(localName, params)\<close> of the registry makes a
  new descriptor with that name and those parameters, its cursor on the first segment.
\<close>

definition createStateInstance :: "string \<Rightarrow> params \<Rightarrow> heap \<Rightarrow> sid \<times> heap" where
  "createStateInstance n ps h =
     (nextSid h,
      h\<lparr>descs := (descs h)(nextSid h := \<lparr>st_fullName = n, st_cursor = 0, st_params = ps\<rparr>),
        nextSid := Suc (nextSid h)\<rparr>)"

text \<open>
  The \<open>else\<close> branch of \<open>setState\<close>: a new state instance is made for the local name
  and its parameters get the \<open>$info\<close> entry.
\<close>

definition createLocalState :: "cid \<Rightarrow> string \<Rightarrow> params \<Rightarrow> run \<Rightarrow> sid \<times> run" where
  "createLocalState c nm ps r =
     (case createStateInstance nm ps (hp r) of (a, h1) \<Rightarrow>
        (a, r\<lparr>hp := h1\<lparr>descs := (descs h1)
                       (a := (descs h1 a)\<lparr>st_params := (st_params (descs h1 a))
                               (''$info'' \<mapsto> Info a (c_previousState (ctrls h1 c)))\<rparr>)\<rparr>\<rparr>))"

text \<open>
  The branch of \<open>setState\<close> after \<open>setCurrent\<close> reported no change and left the heap
  \<open>h'\<close>: \<open>stateRegistry.getCurrent().seekTo(stateMeta.name)\<close>, on the registry's current
  descriptor \<open>g\<close>.
\<close>

definition grabGlobalState :: "string \<Rightarrow> sid \<Rightarrow> heap \<Rightarrow> run \<Rightarrow> run" where
  "grabGlobalState nm g h' r = r\<lparr>hp := h'\<lparr>descs := (descs h')(g := seekTo nm (descs h' g))\<rparr>\<rparr>"

definition setState ::
  "env \<Rightarrow> cid \<Rightarrow> uplink list \<Rightarrow> joint list \<Rightarrow> string \<Rightarrow> params \<Rightarrow> params \<Rightarrow> run \<Rightarrow>
   error + (cid option \<times> run)" where
  "setState e c ups kids name ps opts r =
     (case resolveState e (hp r) c ups name ps of
        Inl err \<Rightarrow> Inl err
      | Inr meta \<Rightarrow>
          (case m_name meta of
             None \<Rightarrow>
               (case setCurrent e (m_fullName meta) (m_params meta) opts (hp r) of
                  Inl err \<Rightarrow> Inl err
                | Inr (changed, h') \<Rightarrow> Inr (Some c, r\<lparr>hp := h'\<rparr>))
           | Some nm \<Rightarrow>
               if registered (hp r) (m_fullName meta) then
                 (case setCurrent e (m_fullName meta) (m_params meta) opts (hp r) of
                    Inl err \<Rightarrow> Inl err
                  | Inr (changed, h') \<Rightarrow>
                      if changed then Inr (Some c, r\<lparr>hp := h'\<rparr>)
                      else
                        (case regCurrent h' of
                           None \<Rightarrow> Inl TypeError
                         | Some g \<Rightarrow>
                             delegateState e c kids (StateObject g)
                               (grabGlobalState nm g h' r)))
               else
                 (case createLocalState c nm (m_params meta) r of (a, r1) \<Rightarrow>
                    delegateState e c kids (StateObject a) r1)))"

section \<open>Notions used in the statements\<close>

text \<open>A declared entry that one of the three checks of \<open>_parseStates\<close> rejects.\<close>

definition offending :: "env \<Rightarrow> (string \<Rightarrow> member) \<Rightarrow> string \<times> handlerDecl \<Rightarrow> bool" where
  "offending e members kf =
     (\<not> isValid e (fst (parseKey (fst kf))) \<or> CHR ''.'' \<in> set (fst (parseKey (fst kf)))
      \<or> resolveHandler members (snd kf) = NotCallable)"

text \<open>A downlink that is a controller whose state table declares the name.\<close>

definition declares :: "heap \<Rightarrow> string \<Rightarrow> joint \<Rightarrow> bool" where
  "declares h name j =
     (case j of
        OtherJoint \<Rightarrow> False
      | ControllerNode k kk \<Rightarrow> c_states (ctrls h k) name \<noteq> None)"

text \<open>
  Every descriptor reference stored in a controller or in the registry is the address
  of an allocated object.
\<close>

definition wfHeap :: "heap \<Rightarrow> bool" where
  "wfHeap h =
     ((\<forall>k a. c_currentState (ctrls h k) = Some a \<longrightarrow> a < nextSid h)
      \<and> (\<forall>k a. c_previousState (ctrls h k) = Some a \<longrightarrow> a < nextSid h)
      \<and> (\<forall>a. regCurrent h = Some a \<longrightarrow> a < nextSid h))"

text \<open>
  The conditions under which \<open>delegateState\<close> takes one of its two no-op branches:
  after default filling the descriptor has no local name (\<open>!name\<close>, line 132), or the
  read of its local name in the state table gives nothing (\<open>!this._states[name]\<close>,
  line 141).
\<close>

definition noopAt :: "env \<Rightarrow> cid \<Rightarrow> sid \<Rightarrow> run \<Rightarrow> bool" where
  "noopAt e c s r =
     (getName (fillStateIfEmpty (ctrls (hp r) c) (descs (hp r) s)) = []
      \<or> \<not> found e (c_states (ctrls (hp r) c))
             (getName (fillStateIfEmpty (ctrls (hp r) c) (descs (hp r) s))))"

section \<open>An example application\<close>

text \<open>
  A controller \<open>main\<close> declaring \<open>list\<close> and \<open>edit(*)\<close> with default state \<open>list\<close>, whose
  downlinks are a view and two controllers that both declare \<open>item\<close>. The registry
  knows \<open>list.item\<close>; its \<open>setCurrent\<close> changes nothing and reports \<open>chg\<close>; the handlers
  do nothing. The inherited names are the properties of \<open>Object.prototype\<close>.
\<close>

definition exEnv :: "bool \<Rightarrow> bool \<Rightarrow> env" where
  "exEnv dbg chg =
     \<lparr>debug = dbg,
      inherited = (\<lambda>n. n \<in> set [''constructor'', ''toString'', ''toLocaleString'',
                                  ''valueOf'', ''hasOwnProperty'', ''isPrototypeOf'',
                                  ''propertyIsEnumerable'', ''__proto__'']),
      isValid = (\<lambda>s. s \<noteq> [] \<and> CHR ''!'' \<notin> set s),
      setCurrent = (\<lambda>n ps opts h. Inr (chg, h)),
      handler = (\<lambda>f c s h. Inr h)\<rparr>"

definition exDecl :: classDecl where
  "exDecl =
     \<lparr>decl_name = ''main'',
      decl_states = [(''list'', Callable 0), (''edit(*)'', MethodName ''onEdit'')],
      decl_default = DefaultObject ''list'' [''page'' \<mapsto> Num 1],
      decl_members = (\<lambda>m. if m = ''onEdit'' then Function 1 else NotCallable)\<rparr>"

text \<open>A declaration with every construction-time defect at once.\<close>

definition exBadDecl :: classDecl where
  "exBadDecl =
     \<lparr>decl_name = ''bad'',
      decl_states = [(''a.b!'', MethodName ''missing'')],
      decl_default = DefaultName ''nowhere'',
      decl_members = (\<lambda>m. NotCallable)\<rparr>"

definition exMain :: controller where
  "exMain =
     \<lparr>c_name = ''main'',
      c_states = [''list'' \<mapsto> \<lparr>wildcard = False, paramNames = [], fn = Function 0\<rparr>,
                  ''edit'' \<mapsto> \<lparr>wildcard = True, paramNames = [], fn = Function 1\<rparr>],
      c_nrStates = 2,
      c_defaultState = Some \<lparr>d_name = ''list'', d_params = [''page'' \<mapsto> Num 1]\<rparr>,
      c_currentState = None,
      c_previousState = None\<rparr>"

definition exChild :: "string \<Rightarrow> controller" where
  "exChild nm =
     \<lparr>c_name = nm,
      c_states = [''item'' \<mapsto> \<lparr>wildcard = False, paramNames = [], fn = Function 2\<rparr>],
      c_nrStates = 1,
      c_defaultState = None,
      c_currentState = None,
      c_previousState = None\<rparr>"

definition exDesc :: "string \<Rightarrow> params \<Rightarrow> descriptor" where
  "exDesc n ps = \<lparr>st_fullName = n, st_cursor = 0, st_params = ps\<rparr>"

definition exHeap :: heap where
  "exHeap =
     \<lparr>ctrls = (\<lambda>k. if k = 0 then exMain\<lparr>c_currentState := Some 0\<rparr>
                   else if k = 1 then exChild ''first'' else exChild ''second''),
      descs = (\<lambda>a. if a = 0 then exDesc ''list'' [''page'' \<mapsto> Num 3]
                   else if a = 1 then exDesc ''list.item'' Map.empty
                   else if a = 2 then exDesc ''nope'' Map.empty
                   else exDesc ''edit'' Map.empty),
      nextSid = 4,
      regCurrent = Some 1,
      registered = (\<lambda>n. n = ''list.item'')\<rparr>"

definition exRun :: run where
  "exRun = \<lparr>hp = exHeap, trace = []\<rparr>"

definition exKids :: "joint list" where
  "exKids = [OtherJoint, ControllerNode 1 [], ControllerNode 2 []]"

text \<open>The same application with a descriptor named \<open>constructor\<close> at address 2.\<close>

definition exConstructorRun :: run where
  "exConstructorRun =
     \<lparr>hp = exHeap\<lparr>descs := (descs exHeap)(2 := exDesc ''constructor'' Map.empty)\<rparr>,
      trace = []\<rparr>"

section \<open>Properties of the name resolver\<close>

declare delegateState.simps [simp del] propagateState.simps [simp del]

lemma walkAncestors_name: "m_name (walkAncestors h ups st) = m_name st"
  by (induction h ups st rule: walkAncestors.induct) (auto split: option.splits)

text \<open>
  Claim C8. A name that starts with \<open>/\<close> resolves to the rest of the name as full name,
  with no \<open>name\<close> field and no parameters; after the caller has mixed the explicit
  parameters in, the parameters are exactly the explicit ones. Nothing of the heap (the
  controller's current state, the ancestors) enters the result.
\<close>

theorem absolute_name_resolution:
  "resolveFullState e h c ups (CHR ''/'' # rest) =
     Inr \<lparr>m_name = None, m_fullName = rest, m_params = Map.empty\<rparr>
   \<and> resolveState e h c ups (CHR ''/'' # rest) ps =
     Inr \<lparr>m_name = None, m_fullName = rest, m_params = ps\<rparr>"
  by (simp add: resolveState_def mixIn_def)

text \<open>
  Claim C1, as the code has it. For a controller with a default state, resolving the
  empty name gives the default's name as local name, the full name built by the
  ancestor walk or, when that is empty, the default's name, and parameters in which
  every key of the default's parameters has the default's value (\<open>mixIn\<close>: a value
  inherited from the current state or an ancestor under the same key is replaced); the
  other keys keep the inherited value.
\<close>

theorem default_state_resolution:
  assumes "c_defaultState (ctrls h c) = Some d"
  shows "\<exists>r. resolveFullState e h c ups [] = Inr r
       \<and> m_name r = Some (d_name d)
       \<and> m_fullName r =
           (if m_fullName (localState h c ups []) \<noteq> []
            then m_fullName (localState h c ups []) else d_name d)
       \<and> (\<forall>k. m_params r k =
             (case d_params d k of
                Some v \<Rightarrow> Some v
              | None \<Rightarrow> m_params (localState h c ups []) k))"
proof -
  have "m_name (localState h c ups []) = Some []"
    by (simp add: localState_def walkAncestors_name)
  with assms show ?thesis
    by (simp add: useDefaultState_def mixIn_def map_add_def split: option.splits)
qed

lemma exHeap_main: "ctrls exHeap 0 = exMain\<lparr>c_currentState := Some 0\<rparr>"
  by (simp add: exHeap_def)

lemma exHeap_desc0: "descs exHeap 0 = exDesc ''list'' [''page'' \<mapsto> Num 3]"
  by (simp add: exHeap_def)

lemma exMain_localState:
  "localState exHeap 0 [] [] =
     \<lparr>m_name = Some [], m_fullName = [], m_params = [''page'' \<mapsto> Num 3]\<rparr>"
  by (simp add: localState_def exHeap_main exHeap_desc0 exMain_def exDesc_def mixIn_def)

theorem default_state_resolution_witness:
  "\<exists>r. resolveFullState (exEnv True False) exHeap 0 [] [] = Inr r
       \<and> m_name r = Some ''list''
       \<and> m_fullName r = ''list''
       \<and> m_params r ''page'' = Some (Num 1)
       \<and> m_params r ''id'' = None"
proof -
  have d: "c_defaultState (ctrls exHeap 0) =
      Some \<lparr>d_name = ''list'', d_params = [''page'' \<mapsto> Num 1]\<rparr>"
    by (simp add: exHeap_main exMain_def)
  from default_state_resolution [OF d, of "exEnv True False" "[]"]
  obtain r where r: "resolveFullState (exEnv True False) exHeap 0 [] [] = Inr r"
      "m_name r = Some ''list''" "m_fullName r = ''list''"
      "\<forall>k. m_params r k =
         (case [''page'' \<mapsto> Num 1] k of
            Some v \<Rightarrow> Some v
          | None \<Rightarrow> m_params (localState exHeap 0 [] []) k)"
    by (auto simp: exMain_localState)
  from r(4) have "m_params r ''page'' = Some (Num 1)" "m_params r ''id'' = None"
    by (simp_all add: exMain_localState)
  with r(1-3) show ?thesis by blast
qed

text \<open>
  The claim as stated fails: the current state of \<open>main\<close> has \<open>page = 3\<close>, the default
  state has \<open>page = 1\<close>, and resolving the empty name yields \<open>page = 1\<close>.
\<close>

theorem default_params_overwrite_counterexample:
  "m_params (localState exHeap 0 [] []) ''page'' = Some (Num 3)
   \<and> (case resolveFullState (exEnv True False) exHeap 0 [] [] of
         Inl err \<Rightarrow> None
       | Inr r \<Rightarrow> m_params r ''page'') = Some (Num 1)"
  by (simp add: exMain_localState exHeap_main exMain_def useDefaultState_def mixIn_def)

section \<open>Properties of the state table builder\<close>

lemma parseStatesLoop_no_debug:
  "\<not> debug e \<Longrightarrow> \<exists>tbl'. parseStatesLoop e nm members decls tbl = Inr tbl'"
  by (induction decls arbitrary: tbl) (auto split: prod.splits)

lemma parseStatesLoop_pass:
  "\<forall>kf \<in> set pre. \<not> offending e members kf \<Longrightarrow>
   \<exists>tbl'. parseStatesLoop e nm members (pre @ rest) tbl = parseStatesLoop e nm members rest tbl'"
proof (induction pre arbitrary: tbl)
  case Nil
  then show ?case by auto
next
  case (Cons a pre)
  obtain k1 f1 where a: "a = (k1, f1)" by (cases a)
  obtain key wc ps where pk: "parseKey k1 = (key, wc, ps)" by (cases "parseKey k1")
  from Cons.prems a pk have ok: "isValid e key" "CHR ''.'' \<notin> set key"
      "resolveHandler members f1 \<noteq> NotCallable"
    by (auto simp: offending_def)
  from Cons.prems have "\<forall>kf \<in> set pre. \<not> offending e members kf" by simp
  from Cons.IH [OF this] ok a pk show ?case by simp
qed

lemma parseStatesLoop_offending:
  "debug e \<Longrightarrow> kf \<in> set decls \<Longrightarrow> offending e members kf \<Longrightarrow>
   \<exists>err. parseStatesLoop e nm members decls tbl = Inl err"
proof (induction decls arbitrary: tbl)
  case Nil
  then show ?case by simp
next
  case (Cons a decls)
  obtain k0 f0 where a: "a = (k0, f0)" by (cases a)
  obtain key wc ps where pk: "parseKey k0 = (key, wc, ps)" by (cases "parseKey k0")
  show ?case
  proof (cases "offending e members a")
    case True
    then show ?thesis using Cons.prems(1) a pk by (auto simp: offending_def)
  next
    case False
    then have "kf \<in> set decls" using Cons.prems by auto
    from Cons.IH [OF Cons.prems(1) this Cons.prems(3)]
    show ?thesis using a pk by auto
  qed
qed

lemma parseStatesLoop_keeps:
  "parseStatesLoop e nm members post t = Inr tbl \<Longrightarrow>
   \<forall>kf \<in> set post. fst (parseKey (fst kf)) \<noteq> n \<Longrightarrow> tbl n = t n"
proof (induction post arbitrary: t)
  case Nil
  then show ?case by simp
next
  case (Cons a post)
  obtain k1 f1 where a: "a = (k1, f1)" by (cases a)
  obtain key wc ps where pk: "parseKey k1 = (key, wc, ps)" by (cases "parseKey k1")
  from Cons.prems(2) a pk have ne: "key \<noteq> n" by auto
  from Cons.prems(1) a pk obtain t' where
    t': "parseStatesLoop e nm members post t' = Inr tbl" and
    tt: "t' = t(key \<mapsto> \<lparr>wildcard = wc, paramNames = ps, fn = resolveHandler members f1\<rparr>)"
    by (auto split: if_splits)
  from Cons.IH [OF t'] Cons.prems(2) have "tbl n = t' n" by simp
  with tt ne show ?case by simp
qed

lemma parseStatesLoop_last_entry:
  "parseStatesLoop e nm members (pre @ (k0, f) # post) tbl0 = Inr tbl \<Longrightarrow>
   \<forall>kf \<in> set post. fst (parseKey (fst kf)) \<noteq> fst (parseKey k0) \<Longrightarrow>
   tbl (fst (parseKey k0)) =
     Some \<lparr>wildcard = fst (snd (parseKey k0)), paramNames = snd (snd (parseKey k0)),
           fn = resolveHandler members f\<rparr>"
proof (induction pre arbitrary: tbl0)
  case Nil
  obtain key wc ps where pk: "parseKey k0 = (key, wc, ps)" by (cases "parseKey k0")
  from Nil.prems(1) pk have
    "parseStatesLoop e nm members post
       (tbl0(key \<mapsto> \<lparr>wildcard = wc, paramNames = ps, fn = resolveHandler members f\<rparr>))
     = Inr tbl"
    by (auto split: if_splits)
  from parseStatesLoop_keeps [OF this Nil.prems(2)] pk show ?case by simp
next
  case (Cons a pre)
  obtain k1 f1 where a: "a = (k1, f1)" by (cases a)
  obtain key wc ps where pk: "parseKey k1 = (key, wc, ps)" by (cases "parseKey k1")
  from Cons.prems(1) a pk obtain t' where
    "parseStatesLoop e nm members (pre @ (k0, f) # post) t' = Inr tbl"
    by (auto split: if_splits)
  from Cons.IH [OF this Cons.prems(2)] show ?case .
qed

lemma matchParams_no_open: "CHR 0x28 \<notin> set n \<Longrightarrow> matchParams n = None"
  by (induction n) auto

lemma matchParams_wildcard: "CHR 0x28 \<notin> set n \<Longrightarrow> matchParams (n @ ''(*)'') = Some ''*''"
  by (induction n) (auto simp: groupAfterOpen_def lineTerminator_def)

lemma takeWhile_open:
  "CHR 0x28 \<notin> set n \<Longrightarrow> takeWhile (\<lambda>c. c \<noteq> CHR 0x28) (n @ CHR 0x28 # r) = n"
  by (induction n) auto

lemma parseKey_plain: "CHR 0x28 \<notin> set n \<Longrightarrow> parseKey n = (n, False, [])"
  by (simp add: parseKey_def matchParams_no_open)

lemma parseKey_wildcard: "CHR 0x28 \<notin> set n \<Longrightarrow> parseKey (n @ ''(*)'') = (n, True, [])"
  using takeWhile_open [of n "''*)''"] by (simp add: parseKey_def matchParams_wildcard)

lemma Controller_table_error:
  assumes "debug e" and "kf \<in> set (decl_states d)"
    and "offending e (decl_members d) kf"
  shows "\<exists>err. Controller e d = Inl err"
proof -
  from parseStatesLoop_offending [OF assms] obtain err where
    "parseStatesLoop e (decl_name d) (decl_members d) (decl_states d) Map.empty = Inl err"
    by blast
  then show ?thesis
    by (simp add: Controller_def parseStates_def)
qed

lemma Controller_first_offending:
  assumes "debug e" and "decl_states d = pre @ (k0, f) # post"
    and "\<forall>kf \<in> set pre. \<not> offending e (decl_members d) kf"
    and "key = fst (parseKey k0)"
  shows "(\<not> isValid e key \<longrightarrow> Controller e d = Inl (InvalidFormat key (decl_name d)))
       \<and> (isValid e key \<and> CHR ''.'' \<in> set key \<longrightarrow>
            Controller e d = Inl (MustBeLocal key (decl_name d)))
       \<and> (isValid e key \<and> CHR ''.'' \<notin> set key
            \<and> resolveHandler (decl_members d) f = NotCallable \<longrightarrow>
            Controller e d = Inl (NonexistentFunction key (decl_name d)))"
proof -
  obtain wc ps where pk: "parseKey k0 = (key, wc, ps)"
    using assms(4) by (cases "parseKey k0") auto
  from parseStatesLoop_pass [OF assms(3)] obtain tbl' where
    "parseStatesLoop e (decl_name d) (decl_members d) (decl_states d) Map.empty =
     parseStatesLoop e (decl_name d) (decl_members d) ((k0, f) # post) tbl'"
    unfolding assms(2) by blast
  with assms(1) pk show ?thesis
    by (simp add: Controller_def parseStates_def)
qed

lemma Controller_no_debug: "\<not> debug e \<Longrightarrow> \<exists>ctl. Controller e d = Inr ctl"
  using parseStatesLoop_no_debug [of e "decl_name d" "decl_members d" "decl_states d" Map.empty]
  by (auto simp: Controller_def parseStates_def parseDefaultState_def Let_def
      split: defaultDecl.splits)

lemma Controller_default_error:
  assumes "debug e"
    and "parseStates e (decl_name d) (decl_members d) (decl_states d) = Inr (tbl, n)"
    and "decl_default d = DefaultName dn \<or> decl_default d = DefaultObject dn dp"
    and "dn = [] \<or> \<not> found e tbl dn"
  shows "Controller e d =
           Inl (if dn = [] then DefaultEmpty (decl_name d) else DefaultNonexistent (decl_name d))"
  using assms by (auto simp: Controller_def parseDefaultState_def)

lemma relative_without_parent:
  assumes "take 3 name = ''../''" and "\<forall>p ups'. ups \<noteq> UpController p # ups'"
  shows "resolveFullState e h c ups name =
           Inl (if debug e then CannotResolveRelative name (c_name (ctrls h c)) else TypeError)"
proof -
  from assms(1) have "take 1 name \<noteq> ''/''" by (cases name) auto
  with assms show ?thesis by (auto split: list.splits uplink.splits)
qed

text \<open>
  Claim C2, as the code has it. In a debug build a declaration error stops the
  constructor or the resolution with its error. The entries of the state table are
  checked in enumeration order, each one for the grammar of its local name, then for a
  dot in it, then for its handler: the first entry that fails a check raises the error
  of the first check it fails (invalid format, not local, nonexistent function), and
  any entry that fails a check makes the constructor fail. A default state whose name
  is empty, or is not found by the read \<open>this._states[name]\<close>, raises the error of
  \<open>_parseDefaultState\<close>. Resolving a \<open>../\<close> name on a controller with no controller
  above raises the relative-state error. In a non-debug build none of the checks is
  made: the constructor always completes, and the relative resolution without a
  controller above fails with the runtime's \<open>TypeError\<close>.
\<close>

theorem declaration_errors_by_build:
  "(debug e \<and> decl_states d = pre @ (ky, f) # post
      \<and> (\<forall>kf \<in> set pre. \<not> offending e (decl_members d) kf) \<and> key = fst (parseKey ky) \<longrightarrow>
        (\<not> isValid e key \<longrightarrow> Controller e d = Inl (InvalidFormat key (decl_name d)))
      \<and> (isValid e key \<and> CHR ''.'' \<in> set key \<longrightarrow>
           Controller e d = Inl (MustBeLocal key (decl_name d)))
      \<and> (isValid e key \<and> CHR ''.'' \<notin> set key
           \<and> resolveHandler (decl_members d) f = NotCallable \<longrightarrow>
           Controller e d = Inl (NonexistentFunction key (decl_name d))))
   \<and> (debug e \<and> kf \<in> set (decl_states d) \<and> offending e (decl_members d) kf \<longrightarrow>
        (\<exists>err. Controller e d = Inl err))
   \<and> (debug e \<and> parseStates e (decl_name d) (decl_members d) (decl_states d) = Inr (tbl, n)
        \<and> (decl_default d = DefaultName dn \<or> decl_default d = DefaultObject dn dp)
        \<and> (dn = [] \<or> \<not> found e tbl dn) \<longrightarrow>
      Controller e d =
        Inl (if dn = [] then DefaultEmpty (decl_name d) else DefaultNonexistent (decl_name d)))
   \<and> (take 3 name = ''../'' \<and> (\<forall>p ups'. ups \<noteq> UpController p # ups') \<longrightarrow>
      resolveFullState e h c ups name =
        Inl (if debug e then CannotResolveRelative name (c_name (ctrls h c)) else TypeError))
   \<and> (\<not> debug e \<longrightarrow> (\<exists>ctl. Controller e d = Inr ctl))"
  using Controller_first_offending [of e d pre ky f post key]
    Controller_table_error [of e kf d] Controller_default_error [of e d tbl n dn dp]
    relative_without_parent [of name ups e h c] Controller_no_debug [of e d]
  by blast

lemma exEnv_simps:
  "debug (exEnv dbg chg) = dbg"
  "inherited (exEnv dbg chg) n =
     (n \<in> set [''constructor'', ''toString'', ''toLocaleString'', ''valueOf'',
                ''hasOwnProperty'', ''isPrototypeOf'', ''propertyIsEnumerable'', ''__proto__''])"
  "isValid (exEnv dbg chg) s = (s \<noteq> [] \<and> CHR ''!'' \<notin> set s)"
  "setCurrent (exEnv dbg chg) n ps opts h = Inr (chg, h)"
  "handler (exEnv dbg chg) f c a h = Inr h"
  by (simp_all add: exEnv_def)

lemma exDecl_table:
  "parseStatesLoop (exEnv dbg chg) ''main'' (decl_members exDecl) (decl_states exDecl) Map.empty
     = Inr (c_states exMain)"
  by (simp add: exEnv_simps exDecl_def exMain_def parseKey_def groupAfterOpen_def
      lineTerminator_def resolveHandler_def)

lemma exDecl_builds: "Controller (exEnv dbg chg) exDecl = Inr exMain"
proof -
  have "decl_name exDecl = ''main''" "length (decl_states exDecl) = 2"
      "decl_default exDecl = DefaultObject ''list'' [''page'' \<mapsto> Num 1]"
    by (simp_all add: exDecl_def)
  moreover have "found (exEnv dbg chg) (c_states exMain) ''list''"
    by (simp add: found_def exMain_def)
  ultimately show ?thesis
    by (simp add: Controller_def parseStates_def exDecl_table parseDefaultState_def)
      (simp add: exMain_def)
qed

lemma exBadDecl_parseKey:
  "parseKey ''a.b!'' = (''a.b!'', False, [])"
  "parseKey ''a.b'' = (''a.b'', False, [])"
  "parseKey ''list'' = (''list'', False, [])"
  by (simp_all add: parseKey_def)

theorem declaration_errors_by_build_witness:
  "Controller (exEnv True False) exBadDecl = Inl (InvalidFormat ''a.b!'' ''bad'')
   \<and> Controller (exEnv True False)
        (exDecl\<lparr>decl_states := [(''list'', Callable 0), (''a.b'', Callable 0)]\<rparr>)
       = Inl (MustBeLocal ''a.b'' ''main'')
   \<and> Controller (exEnv True False)
        (exDecl\<lparr>decl_states := [(''list'', MethodName ''missing'')]\<rparr>)
       = Inl (NonexistentFunction ''list'' ''main'')
   \<and> (\<exists>err. Controller (exEnv True False)
        (exDecl\<lparr>decl_states := [(''list'', Callable 0), (''a.b'', Callable 0)]\<rparr>) = Inl err)
   \<and> Controller (exEnv True False) (exDecl\<lparr>decl_default := DefaultName ''nowhere''\<rparr>)
       = Inl (DefaultNonexistent ''main'')
   \<and> Controller (exEnv True False) (exDecl\<lparr>decl_default := DefaultName []\<rparr>)
       = Inl (DefaultEmpty ''main'')
   \<and> resolveFullState (exEnv True False) exHeap 0 [] ''../list''
       = Inl (CannotResolveRelative ''../list'' ''main'')
   \<and> resolveFullState (exEnv False False) exHeap 0 [] ''../list'' = Inl TypeError
   \<and> (\<exists>ctl. Controller (exEnv False False) exBadDecl = Inr ctl)"
proof -
  have nm: "decl_name exDecl = ''main''" "decl_members exDecl ''missing'' = NotCallable"
    by (simp_all add: exDecl_def)
  have c1: "Controller (exEnv True False) exBadDecl = Inl (InvalidFormat ''a.b!'' ''bad'')"
    using declaration_errors_by_build
      [where e = "exEnv True False" and d = exBadDecl and pre = "[]" and ky = "''a.b!''"
         and f = "MethodName ''missing''" and post = "[]" and key = "''a.b!''"]
    by (simp add: exEnv_simps exBadDecl_def exBadDecl_parseKey)
  have c2: "Controller (exEnv True False)
        (exDecl\<lparr>decl_states := [(''list'', Callable 0), (''a.b'', Callable 0)]\<rparr>)
       = Inl (MustBeLocal ''a.b'' ''main'')"
    using declaration_errors_by_build
      [where e = "exEnv True False"
         and d = "exDecl\<lparr>decl_states := [(''list'', Callable 0), (''a.b'', Callable 0)]\<rparr>"
         and pre = "[(''list'', Callable 0)]" and ky = "''a.b''"
         and f = "Callable 0" and post = "[]" and key = "''a.b''"] nm
    by (simp add: exEnv_simps exBadDecl_parseKey offending_def resolveHandler_def)
  have c3: "Controller (exEnv True False)
        (exDecl\<lparr>decl_states := [(''list'', MethodName ''missing'')]\<rparr>)
       = Inl (NonexistentFunction ''list'' ''main'')"
    using declaration_errors_by_build
      [where e = "exEnv True False"
         and d = "exDecl\<lparr>decl_states := [(''list'', MethodName ''missing'')]\<rparr>"
         and pre = "[]" and ky = "''list''"
         and f = "MethodName ''missing''" and post = "[]" and key = "''list''"] nm
    by (simp add: exEnv_simps exBadDecl_parseKey resolveHandler_def)
  have c4: "\<exists>err. Controller (exEnv True False)
        (exDecl\<lparr>decl_states := [(''list'', Callable 0), (''a.b'', Callable 0)]\<rparr>) = Inl err"
    using declaration_errors_by_build
      [where e = "exEnv True False"
         and d = "exDecl\<lparr>decl_states := [(''list'', Callable 0), (''a.b'', Callable 0)]\<rparr>"
         and kf = "(''a.b'', Callable 0)"]
    by (simp add: exEnv_simps exBadDecl_parseKey offending_def)
  have nf: "\<not> found (exEnv True False) (c_states exMain) ''nowhere''"
    by (simp add: found_def exMain_def exEnv_simps)
  have c5: "Controller (exEnv True False) (exDecl\<lparr>decl_default := DefaultName ''nowhere''\<rparr>)
       = Inl (DefaultNonexistent ''main'')"
    using declaration_errors_by_build
      [where e = "exEnv True False" and d = "exDecl\<lparr>decl_default := DefaultName ''nowhere''\<rparr>"
         and tbl = "c_states exMain" and n = 2 and dn = "''nowhere''"]
      exDecl_table [of True False] nm nf
    by (simp add: exEnv_simps parseStates_def) (simp add: exDecl_def)
  have c6: "Controller (exEnv True False) (exDecl\<lparr>decl_default := DefaultName []\<rparr>)
       = Inl (DefaultEmpty ''main'')"
    using declaration_errors_by_build
      [where e = "exEnv True False" and d = "exDecl\<lparr>decl_default := DefaultName []\<rparr>"
         and tbl = "c_states exMain" and n = 2 and dn = "[]"]
      exDecl_table [of True False] nm
    by (simp add: exEnv_simps parseStates_def) (simp add: exDecl_def)
  have c7: "resolveFullState (exEnv True False) exHeap 0 [] ''../list''
       = Inl (CannotResolveRelative ''../list'' ''main'')"
    using declaration_errors_by_build
      [where e = "exEnv True False" and name = "''../list''" and ups = "[]"
         and h = exHeap and c = 0]
    by (simp add: exEnv_simps exHeap_main exMain_def)
  have c8: "resolveFullState (exEnv False False) exHeap 0 [] ''../list'' = Inl TypeError"
    using declaration_errors_by_build
      [where e = "exEnv False False" and name = "''../list''" and ups = "[]"
         and h = exHeap and c = 0]
    by (simp add: exEnv_simps)
  have c9: "\<exists>ctl. Controller (exEnv False False) exBadDecl = Inr ctl"
    using declaration_errors_by_build [where e = "exEnv False False" and d = exBadDecl]
    by (simp add: exEnv_simps)
  from c1 c2 c3 c4 c5 c6 c7 c8 c9 show ?thesis by blast
qed

text \<open>
  The claim as stated fails in a non-debug build: a table whose only key \<open>a.b!\<close> is
  not valid, contains a dot and names a missing method, together with a default state
  absent from the table, constructs a controller.
\<close>

theorem non_debug_construction_counterexample:
  "\<not> isValid (exEnv False False) ''a.b!''
   \<and> CHR ''.'' \<in> set ''a.b!''
   \<and> decl_members exBadDecl ''missing'' = NotCallable
   \<and> Controller (exEnv False False) exBadDecl =
       Inr \<lparr>c_name = ''bad'',
            c_states = [''a.b!'' \<mapsto> \<lparr>wildcard = False, paramNames = [], fn = NotCallable\<rparr>],
            c_nrStates = 1,
            c_defaultState = Some \<lparr>d_name = ''nowhere'', d_params = Map.empty\<rparr>,
            c_currentState = None,
            c_previousState = None\<rparr>"
  by (simp add: exEnv_simps exBadDecl_def Controller_def parseStates_def exBadDecl_parseKey
      resolveHandler_def parseDefaultState_def)

section \<open>Properties of the equality decider\<close>

lemma built_table_entry:
  assumes "Controller e d = Inr ctl"
    and "decl_states d = pre @ (k0, f) # post"
    and "\<forall>kf \<in> set post. fst (parseKey (fst kf)) \<noteq> fst (parseKey k0)"
  shows "c_states ctl (fst (parseKey k0)) =
           Some \<lparr>wildcard = fst (snd (parseKey k0)), paramNames = snd (snd (parseKey k0)),
                 fn = resolveHandler (decl_members d) f\<rparr>"
proof -
  from assms(1) obtain tbl where
    tbl: "parseStatesLoop e (decl_name d) (decl_members d) (decl_states d) Map.empty = Inr tbl"
    and ctl: "c_states ctl = tbl"
    by (auto simp: Controller_def parseStates_def split: sum.splits)
  from parseStatesLoop_last_entry [OF tbl [unfolded assms(2)] assms(3)] ctl
  show ?thesis by simp
qed

text \<open>
  Claim C3. Let the state table of a controller be the one its constructor built from
  the declaration, and let \<open>n\<close> be the local name of the candidate descriptor. If the
  (last) declaration of \<open>n\<close> is the key \<open>n(*)\<close>, \<open>_isSameState\<close> is false against every
  base, the candidate itself included. If it is the bare key \<open>n\<close>, \<open>_isSameState\<close> is
  true against every base with the same local name, whatever the parameters. Without
  a current state and without an explicit base, \<open>_isSameState\<close> is false.
\<close>

theorem isSameState_by_declaration:
  assumes "Controller e d = Inr ctl"
    and "c_states (ctrls h c) = c_states ctl"
    and "CHR 0x28 \<notin> set n"
    and "getName (descs h s) = n"
    and "\<forall>kf \<in> set post. fst (parseKey (fst kf)) \<noteq> n"
  shows "(decl_states d = pre @ (n @ ''(*)'', f) # post \<longrightarrow> \<not> isSameState h c s base)
       \<and> (decl_states d = pre @ (n, f) # post \<and> getName (descs h b) = n \<longrightarrow>
            isSameState h c s (Some b))
       \<and> (c_currentState (ctrls h c) = None \<longrightarrow> \<not> isSameState h c s None)"
proof (intro conjI impI)
  assume ds: "decl_states d = pre @ (n @ ''(*)'', f) # post"
  from built_table_entry [OF assms(1) ds] assms(3,5)
  have "c_states ctl n = Some \<lparr>wildcard = True, paramNames = [],
      fn = resolveHandler (decl_members d) f\<rparr>"
    by (simp add: parseKey_wildcard)
  with assms(2,4) show "\<not> isSameState h c s base"
    by (simp add: isSameState_def split: option.splits)
next
  assume "decl_states d = pre @ (n, f) # post \<and> getName (descs h b) = n"
  then have ds: "decl_states d = pre @ (n, f) # post" and b: "getName (descs h b) = n"
    by simp_all
  from built_table_entry [OF assms(1) ds] assms(3,5)
  have "c_states ctl n = Some \<lparr>wildcard = False, paramNames = [],
      fn = resolveHandler (decl_members d) f\<rparr>"
    by (simp add: parseKey_plain)
  with assms(2,4) b show "isSameState h c s (Some b)"
    by (simp add: isSameState_def isEqual_def)
next
  assume "c_currentState (ctrls h c) = None"
  then show "\<not> isSameState h c s None"
    by (simp add: isSameState_def)
qed

lemma exHeap_names:
  "getName (descs exHeap 0) = ''list''"
  "getName (descs exHeap 1) = ''list''"
  "getName (descs exHeap (Suc 0)) = ''list''"
  "getName (descs exHeap 2) = ''nope''"
  "getName (descs exHeap 3) = ''edit''"
  by (simp_all add: exHeap_def exDesc_def getName_def segments_def)

theorem isSameState_by_declaration_witness:
  "\<not> isSameState exHeap 0 3 (Some 3)
   \<and> st_params (descs exHeap 0) ''page'' \<noteq> st_params (descs exHeap 1) ''page''
   \<and> isSameState exHeap 0 1 (Some 0)
   \<and> \<not> isSameState (exHeap\<lparr>ctrls := (ctrls exHeap)(0 := exMain)\<rparr>) 0 3 None"
proof -
  have tbl: "c_states (ctrls exHeap 0) = c_states exMain"
    by (simp add: exHeap_main)
  have wild: "\<not> isSameState exHeap 0 3 (Some 3)"
    using isSameState_by_declaration
      [OF exDecl_builds [of True False] tbl, where n = "''edit''" and s = 3 and post = "[]"
         and pre = "[(''list'', Callable 0)]" and f = "MethodName ''onEdit''"
         and base = "Some 3"]
    by (simp add: exHeap_names exDecl_def)
  have plain: "isSameState exHeap 0 1 (Some 0)"
    using isSameState_by_declaration
      [OF exDecl_builds [of True False] tbl, where n = "''list''" and s = 1 and b = 0
         and post = "[(''edit(*)'', MethodName ''onEdit'')]" and pre = "[]"
         and f = "Callable 0"]
    by (simp add: exHeap_names exDecl_def parseKey_def groupAfterOpen_def lineTerminator_def)
  have nobase: "\<not> isSameState (exHeap\<lparr>ctrls := (ctrls exHeap)(0 := exMain)\<rparr>) 0 3 None"
  proof -
    have "c_states (ctrls (exHeap\<lparr>ctrls := (ctrls exHeap)(0 := exMain)\<rparr>) 0) = c_states exMain"
      by simp
    moreover have "c_currentState exMain = None"
      by (simp add: exMain_def)
    ultimately show ?thesis
      using isSameState_by_declaration
        [OF exDecl_builds [of True False], where n = "''edit''" and s = 3 and post = "[]"
           and c = 0 and h = "exHeap\<lparr>ctrls := (ctrls exHeap)(0 := exMain)\<rparr>"]
      by (simp add: exHeap_names)
  qed
  have "st_params (descs exHeap 0) ''page'' \<noteq> st_params (descs exHeap 1) ''page''"
    by (simp add: exHeap_def exDesc_def)
  with wild plain nobase show ?thesis by simp
qed

section \<open>Properties of the delegation engine\<close>

lemma trace_setCurrentState: "trace (setCurrentState c s r) = trace r @ [Committed c]"
  by (simp add: setCurrentState_def clone_def Let_def)

lemma trace_nextState: "trace (nextState s r) = trace r @ [Advanced s]"
  by (simp add: nextState_def)

lemma trace_fillState: "trace (fillState c s r) = trace r"
  by (simp add: fillState_def)

lemma trace_syncFullName: "trace (syncFullName c s name r) = trace r"
  by (simp add: syncFullName_def split: option.splits)

lemma trace_perform:
  "performStateChange e c s r = Inr r' \<Longrightarrow>
   \<exists>nm. trace r' = trace r @ [Committed c, Advanced s, Invoked c nm]"
  by (auto simp: performStateChange_def Let_def trace_setCurrentState trace_nextState
      split: option.splits member.splits sum.splits)

lemma trace_ext:
  "delegateState e c kids arg r = Inr (ret, r') \<Longrightarrow> \<exists>rest. trace r' = trace r @ Entered c # rest"
  "propagateState e c kids s r = Inr r1 \<Longrightarrow> \<exists>rest. trace r1 = trace r @ Committed c # Advanced s # rest"
  "propagateLoop e c name s kids r = Inr r2 \<Longrightarrow> \<exists>rest. trace r2 = trace r @ rest"
proof (induction e c kids arg r and e c kids s r and e c name s kids r
    arbitrary: ret r' and r1 and r2
    rule: delegateState_propagateState_propagateLoop.induct)
  case (1 e c kids arg r0)
  from "1.prems" obtain s where s: "pickState (hp r0) arg = Some s"
    by (auto simp: delegateState.simps Let_def split: option.splits)
  define ra where "ra = fillState c s (r0\<lparr>trace := trace r0 @ [Entered c]\<rparr>)"
  define name where "name = getName (descs (hp ra) s)"
  have tra: "trace ra = trace r0 @ [Entered c]"
    by (simp add: ra_def trace_fillState)
  show ?case
  proof (cases "name = [] \<or> \<not> found e (c_states (ctrls (hp ra) c)) name")
    case True
    with "1.prems" s tra show ?thesis
      by (auto simp: delegateState.simps Let_def ra_def [symmetric] name_def [symmetric] warn_def
          split: if_splits)
  next
    case False
    show ?thesis
    proof (cases "isSameState (hp ra) c s None")
      case same: True
      with False "1.prems" s obtain r2 where
        p: "propagateState e c kids s ra = Inr r2" and r': "r' = syncFullName c s name r2"
        by (auto simp: delegateState.simps Let_def ra_def [symmetric] name_def [symmetric]
            split: sum.splits)
      have "\<exists>rest. trace r2 = trace ra @ Committed c # Advanced s # rest"
        using "1.IH" [OF refl _ ra_def [unfolded] name_def _ _ _ p] s False same
        by (simp add: ra_def name_def)
      then show ?thesis using r' tra by (auto simp: trace_syncFullName)
    next
      case diff: False
      with False "1.prems" s obtain r2 where
        p: "performStateChange e c s ra = Inr r2" and r': "r' = syncFullName c s name r2"
        by (auto simp: delegateState.simps Let_def ra_def [symmetric] name_def [symmetric]
            split: sum.splits)
      from trace_perform [OF p] r' tra show ?thesis by (auto simp: trace_syncFullName)
    qed
  qed
next
  case (2 e c kids s r)
  from "2.prems" have
    "propagateLoop e c (getName (descs (hp (nextState s (setCurrentState c s r))) s)) s kids
       (nextState s (setCurrentState c s r)) = Inr r1"
    by (simp add: propagateState.simps Let_def)
  from "2.IH" [OF refl this] show ?case
    by (auto simp: trace_nextState trace_setCurrentState)
next
  case (3 e c name s r)
  then show ?case by (auto simp: warn_def split: if_splits)
next
  case (4 e c name s rest r)
  then show ?case by simp
next
  case (5 e c name s k kk rest r)
  show ?case
  proof (cases "accepts e (hp r) k name s")
    case True
    with "5.prems" obtain ret where "delegateState e k kk (StateObject s) r = Inr (ret, r2)"
      by (auto split: sum.splits)
    from "5.IH"(1) [OF True this] show ?thesis by auto
  next
    case False
    with "5.prems" have "propagateLoop e c name s rest r = Inr r2" by simp
    from "5.IH"(2) [OF False this] show ?thesis .
  qed
qed


text \<open>
  Where the read of the local name in the state table finds nothing, \<open>delegateState\<close>
  is a no-op: it returns normally with \<open>undefined\<close>, no controller is changed, the
  registry and the allocation pointer are unchanged, the only descriptor touched is the
  delegated one (by the default filling), and the trace gains the entry into
  \<open>delegateState\<close> followed, in a debug build, by exactly one \<open>Unknown state\<close> warning.
\<close>

lemma unknown_state_noop:
  assumes "pickState (hp r) arg = Some s"
    and "name = getName (fillStateIfEmpty (ctrls (hp r) c) (descs (hp r) s))"
    and "name \<noteq> []"
    and "\<not> found e (c_states (ctrls (hp r) c)) name"
  shows "\<exists>r'. delegateState e c kids arg r = Inr (None, r')
           \<and> ctrls (hp r') = ctrls (hp r)
           \<and> regCurrent (hp r') = regCurrent (hp r)
           \<and> nextSid (hp r') = nextSid (hp r)
           \<and> registered (hp r') = registered (hp r)
           \<and> descs (hp r') s = fillStateIfEmpty (ctrls (hp r) c) (descs (hp r) s)
           \<and> (\<forall>a. a \<noteq> s \<longrightarrow> descs (hp r') a = descs (hp r) a)
           \<and> trace r' = trace r @ Entered c #
                 (if debug e then [Warned (UnknownState name (c_name (ctrls (hp r) c)))] else [])"
  using assms
  by (simp add: delegateState.simps Let_def fillState_def warn_def)

lemma exRun_simps: "hp exRun = exHeap" "trace exRun = []"
  by (simp_all add: exRun_def)

lemma exMain_fields:
  "c_name exMain = ''main''"
  "c_defaultState exMain = Some \<lparr>d_name = ''list'', d_params = [''page'' \<mapsto> Num 1]\<rparr>"
  "c_states exMain ''list'' = Some \<lparr>wildcard = False, paramNames = [], fn = Function 0\<rparr>"
  "c_states exMain ''edit'' = Some \<lparr>wildcard = True, paramNames = [], fn = Function 1\<rparr>"
  "c_states exMain ''nope'' = None"
  "c_states exMain ''item'' = None"
  "c_states exMain ''constructor'' = None"
  "c_states exMain [] = None"
  "c_nrStates exMain = 2"
  "c_currentState exMain = None"
  "c_previousState exMain = None"
  by (simp_all add: exMain_def)

lemma exConstructorRun_simps:
  "ctrls (hp exConstructorRun) = ctrls exHeap"
  "descs (hp exConstructorRun) 2 = exDesc ''constructor'' Map.empty"
  "descs (hp exConstructorRun) 0 = descs exHeap 0"
  "nextSid (hp exConstructorRun) = 4"
  "regCurrent (hp exConstructorRun) = Some 1"
  "trace exConstructorRun = []"
  by (simp_all add: exConstructorRun_def exHeap_def)

lemma exConstructor_name: "getName (exDesc ''constructor'' ps) = ''constructor''"
  by (simp add: exDesc_def getName_def segments_def)

text \<open>
  Claim C4, at an input where the code departs from it. The controller \<open>main\<close> does
  not declare \<open>constructor\<close>, and the descriptor at address 2 has that local name
  (the default filling leaves it). The read \<open>this._states['constructor']\<close> finds the
  property every plain object inherits, so \<open>delegateState\<close> does not take the
  unknown-state branch: the state differs from the current one, \<open>_performStateChange\<close>
  commits it (\<open>_currentState\<close> becomes the new copy at address 4, \<open>_previousState\<close> the
  old current state 0) and the call of the missing handler raises a \<open>TypeError\<close>.
\<close>

theorem inherited_name_commits_and_throws:
  "c_states (ctrls (hp exConstructorRun) 0) ''constructor'' = None
   \<and> getName (fillStateIfEmpty (ctrls (hp exConstructorRun) 0) (descs (hp exConstructorRun) 2))
       = ''constructor''
   \<and> \<not> isSameState (hp exConstructorRun) 0 2 None
   \<and> c_currentState (ctrls (hp (setCurrentState 0 2 exConstructorRun)) 0) = Some 4
   \<and> c_previousState (ctrls (hp (setCurrentState 0 2 exConstructorRun)) 0) = Some 0
   \<and> delegateState (exEnv True False) 0 exKids (StateObject 2) exConstructorRun = Inl TypeError"
proof -
  have tbl: "c_states (ctrls (hp exConstructorRun) 0) ''constructor'' = None"
    by (simp add: exConstructorRun_simps exHeap_main exMain_fields)
  have nm: "getName (fillStateIfEmpty (ctrls (hp exConstructorRun) 0)
      (descs (hp exConstructorRun) 2)) = ''constructor''"
    by (simp add: exConstructorRun_simps exHeap_main fillStateIfEmpty_def exMain_fields
        exConstructor_name)
  have fill: "fillStateIfEmpty (ctrls (hp exConstructorRun) 0) (descs (hp exConstructorRun) 2)
      = descs (hp exConstructorRun) 2"
    by (simp add: exConstructorRun_simps exHeap_main fillStateIfEmpty_def exMain_fields
        exConstructor_name)
  have diff: "\<not> isSameState (hp exConstructorRun) 0 2 None"
    by (simp add: isSameState_def exConstructorRun_simps exHeap_main exMain_fields
        exConstructor_name exHeap_names isEqual_def)
  have cur: "c_currentState (ctrls (hp (setCurrentState 0 2 exConstructorRun)) 0) = Some 4"
      "c_previousState (ctrls (hp (setCurrentState 0 2 exConstructorRun)) 0) = Some 0"
    by (simp_all add: setCurrentState_def clone_def Let_def exConstructorRun_simps exHeap_main)
  define r1 where
    "r1 = fillState 0 2 (exConstructorRun\<lparr>trace := trace exConstructorRun @ [Entered 0]\<rparr>)"
  have pick: "pickState (hp exConstructorRun) (StateObject 2) = Some 2"
    by (simp add: pickState_def)
  have h1: "hp r1 = hp exConstructorRun"
    using fill by (simp add: r1_def fillState_def)
  have name1: "getName (descs (hp r1) 2) = ''constructor''"
    by (simp add: h1 exConstructorRun_simps exConstructor_name)
  have found1: "found (exEnv True False) (c_states (ctrls (hp r1) 0)) ''constructor''"
    by (simp add: found_def exEnv_simps)
  have diff1: "\<not> isSameState (hp r1) 0 2 None"
    using diff by (simp add: h1)
  have perf1: "performStateChange (exEnv True False) 0 2 r1 = Inl TypeError"
    by (simp add: performStateChange_def Let_def nextState_def setCurrentState_def clone_def
        h1 exConstructorRun_simps exHeap_main exMain_fields exConstructor_name setFullName_def)
  have "delegateState (exEnv True False) 0 exKids (StateObject 2) exConstructorRun
      = Inl TypeError"
    by (simp add: delegateState.simps Let_def pick r1_def [symmetric] name1 found1 diff1 perf1)
  with tbl nm diff cur show ?thesis by simp
qed

lemma propagateLoop_skip:
  "name \<noteq> [] \<Longrightarrow> \<not> inherited e name \<Longrightarrow> \<forall>j \<in> set pre. \<not> declares (hp r) name j \<Longrightarrow>
   propagateLoop e c name s (pre @ post) r = propagateLoop e c name s post r"
proof (induction pre)
  case Nil
  then show ?case by simp
next
  case (Cons j pre)
  then show ?case by (cases j) (auto simp: declares_def accepts_def found_def)
qed

lemma delegate_noop_undefined:
  assumes "pickState (hp r) arg = Some s" and "noopAt e c s r"
  shows "\<exists>r'. delegateState e c kids arg r = Inr (None, r')"
  using assms
  by (auto simp add: delegateState.simps Let_def fillState_def warn_def noopAt_def)

lemma exChild_fields:
  "c_name (exChild nm) = nm"
  "c_defaultState (exChild nm) = None"
  "c_states (exChild nm) ''item'' = Some \<lparr>wildcard = False, paramNames = [], fn = Function 2\<rparr>"
  "c_states (exChild nm) ''list'' = None"
  "c_states (exChild nm) ''nope'' = None"
  "c_states (exChild nm) [] = None"
  "c_currentState (exChild nm) = None"
  "c_previousState (exChild nm) = None"
  by (simp_all add: exChild_def)

lemma exHeap_fields:
  "ctrls exHeap (Suc 0) = exChild ''first''"
  "ctrls exHeap 1 = exChild ''first''"
  "ctrls exHeap 2 = exChild ''second''"
  "descs exHeap (Suc 0) = exDesc ''list.item'' Map.empty"
  "descs exHeap 1 = exDesc ''list.item'' Map.empty"
  "descs exHeap 2 = exDesc ''nope'' Map.empty"
  "descs exHeap 3 = exDesc ''edit'' Map.empty"
  "nextSid exHeap = 4"
  "regCurrent exHeap = Some 1"
  "registered exHeap n = (n = ''list.item'')"
  by (simp_all add: exHeap_def)

lemma exDesc_names:
  "getName (exDesc ''edit'' ps) = ''edit''"
  "getName (exDesc ''list'' ps) = ''list''"
  "getName (exDesc ''nope'' ps) = ''nope''"
  "getName (exDesc ''list.item'' ps) = ''list''"
  "getName (exDesc [] ps) = []"
  "getName (advance (exDesc ''list.item'' ps)) = ''item''"
  "getName (advance (exDesc ''list'' ps)) = []"
  by (simp_all add: exDesc_def getName_def segments_def advance_def)

lemma wfHeap_exHeap: "wfHeap exHeap"
  by (simp add: wfHeap_def exHeap_def exMain_fields exChild_fields)

lemma exCommitted:
  "c_currentState (ctrls (hp (nextState s (setCurrentState 0 s exRun))) 0) = Some 4"
  "c_previousState (ctrls (hp (nextState s (setCurrentState 0 s exRun))) 0) = Some 0"
  "c_states (ctrls (hp (nextState s (setCurrentState 0 s exRun))) k) = c_states (ctrls exHeap k)"
  "c_name (ctrls (hp (nextState s (setCurrentState 0 s exRun))) k) = c_name (ctrls exHeap k)"
  "s < 4 \<Longrightarrow> descs (hp (nextState s (setCurrentState 0 s exRun))) 4 = descs exHeap s"
  "s < 4 \<Longrightarrow> descs (hp (nextState s (setCurrentState 0 s exRun))) s = advance (descs exHeap s)"
  by (auto simp add: nextState_def setCurrentState_def clone_def Let_def exRun_simps
      exHeap_fields exHeap_main setFullName_def)

lemma exChild_resolves_item:
  "resolveState (exEnv dbg chg) exHeap 1 [UpController 0] ''item'' Map.empty =
     Inr \<lparr>m_name = Some ''item'', m_fullName = ''list.item'', m_params = [''page'' \<mapsto> Num 3]\<rparr>"
  by (simp add: resolveState_def localState_def useDefaultState_def exHeap_fields
      exChild_fields exHeap_main exHeap_desc0 exDesc_names mixIn_def fillIn_def)
    (simp add: exDesc_def)

lemma exChild_resolves_empty:
  "resolveState (exEnv dbg chg) exHeap 1 [UpController 0] [] Map.empty =
     Inr \<lparr>m_name = Some [], m_fullName = ''list'', m_params = [''page'' \<mapsto> Num 3]\<rparr>"
  by (simp add: resolveState_def localState_def useDefaultState_def exHeap_fields
      exChild_fields exHeap_main exHeap_desc0 exDesc_names mixIn_def fillIn_def)
    (simp add: exDesc_def)

lemma exChild_resolves_nope:
  "resolveState (exEnv dbg chg)
       (exHeap\<lparr>regCurrent := Some 2, registered := \<lambda>n. n = ''nope''\<rparr>) 1 [] ''nope'' Map.empty =
     Inr \<lparr>m_name = Some ''nope'', m_fullName = ''nope'', m_params = Map.empty\<rparr>"
  by (simp add: resolveState_def localState_def useDefaultState_def exHeap_fields
      exChild_fields mixIn_def)

text \<open>
  Claim C6. Let \<open>r2\<close> be the run after \<open>_setCurrentState(state)\<close> and \<open>state.next()\<close>,
  the first two statements of both \<open>_performStateChange\<close> and \<open>_propagateState\<close>. In
  \<open>r2\<close> the controller is committed (\<open>_previousState\<close> is the old current state,
  \<open>_currentState\<close> the new copy) and the cursor of the descriptor is advanced. The
  handler of \<open>_performStateChange\<close> is applied to the heap of \<open>r2\<close>, and the loop of
  \<open>_propagateState\<close> over the children starts from \<open>r2\<close>; in the trace of either, the
  commit and the advance come first, and the handler call and everything a child does
  come after them.
\<close>

theorem commit_before_handler_and_children:
  assumes "r2 = nextState s (setCurrentState c s r)"
  shows "trace r2 = trace r @ [Committed c, Advanced s]
       \<and> c_previousState (ctrls (hp r2) c) = c_currentState (ctrls (hp r) c)
       \<and> c_currentState (ctrls (hp r2) c) = Some (nextSid (hp r))
       \<and> st_cursor (descs (hp r2) s) = Suc (st_cursor (descs (hp r) s))
       \<and> (performStateChange e c s r = Inr r' \<longrightarrow>
            (\<exists>f nm. handler e f c s (hp r2) = Inr (hp r')
                  \<and> trace r' = trace r @ [Committed c, Advanced s, Invoked c nm]))
       \<and> propagateState e c kids s r = propagateLoop e c (getName (descs (hp r2) s)) s kids r2
       \<and> (propagateState e c kids s r = Inr r'' \<longrightarrow>
            (\<exists>rest. trace r'' = trace r @ Committed c # Advanced s # rest))"
proof (intro conjI impI)
  show "trace r2 = trace r @ [Committed c, Advanced s]"
    by (simp add: assms trace_nextState trace_setCurrentState)
  show "c_previousState (ctrls (hp r2) c) = c_currentState (ctrls (hp r) c)"
    by (simp add: assms nextState_def setCurrentState_def clone_def Let_def)
  show "c_currentState (ctrls (hp r2) c) = Some (nextSid (hp r))"
    by (simp add: assms nextState_def setCurrentState_def clone_def Let_def)
  show "st_cursor (descs (hp r2) s) = Suc (st_cursor (descs (hp r) s))"
    by (simp add: assms nextState_def setCurrentState_def clone_def Let_def advance_def
        setFullName_def)
  show "propagateState e c kids s r = propagateLoop e c (getName (descs (hp r2) s)) s kids r2"
    by (simp add: assms propagateState.simps Let_def)
  show "\<exists>rest. trace r'' = trace r @ Committed c # Advanced s # rest"
    if "propagateState e c kids s r = Inr r''"
    using trace_ext(2) [OF that] .
  show "\<exists>f nm. handler e f c s (hp r2) = Inr (hp r')
                  \<and> trace r' = trace r @ [Committed c, Advanced s, Invoked c nm]"
    if "performStateChange e c s r = Inr r'"
    using that
    by (auto simp: performStateChange_def Let_def assms trace_nextState trace_setCurrentState
        split: option.splits member.splits sum.splits)
qed

lemma exKids_propagation_runs:
  "\<exists>rk. propagateState (exEnv True False) 0 exKids 1 exRun = Inr rk"
  by (simp add: propagateState.simps delegateState.simps Let_def accepts_def found_def
      performStateChange_def exHeap_def exMain_def exChild_def exDesc_def exRun_def exEnv_def
      getName_def segments_def advance_def setCurrentState_def clone_def nextState_def
      fillState_def fillStateIfEmpty_def pickState_def isSameState_def syncFullName_def
      exKids_def setFullName_def)

theorem commit_before_handler_and_children_witness:
  "(case performStateChange (exEnv True False) 0 3 exRun of
      Inl err \<Rightarrow> False
    | Inr r' \<Rightarrow> \<exists>nm. trace r' = [Committed 0, Advanced 3, Invoked 0 nm])
   \<and> (case propagateState (exEnv True False) 0 [] 1 exRun of
      Inl err \<Rightarrow> False
    | Inr r'' \<Rightarrow> \<exists>rest. trace r'' = Committed 0 # Advanced 1 # rest)
   \<and> (case propagateState (exEnv True False) 0 exKids 1 exRun of
      Inl err \<Rightarrow> False
    | Inr r'' \<Rightarrow> \<exists>rest. trace r'' = Committed 0 # Advanced 1 # rest)
   \<and> c_currentState (ctrls (hp (nextState 3 (setCurrentState 0 3 exRun))) 0) = Some 4
   \<and> c_previousState (ctrls (hp (nextState 3 (setCurrentState 0 3 exRun))) 0) = Some 0"
proof -
  obtain r' where p: "performStateChange (exEnv True False) 0 3 exRun = Inr r'"
    by (simp add: performStateChange_def Let_def exCommitted exHeap_fields exHeap_main
        exDesc_names exMain_fields exEnv_simps)
  obtain r'' where q: "propagateState (exEnv True False) 0 [] 1 exRun = Inr r''"
    by (simp add: propagateState.simps Let_def)
  note t1 = commit_before_handler_and_children
    [OF refl, where e = "exEnv True False" and c = 0 and s = 3 and r = exRun
       and r' = r' and r'' = r'' and kids = "[]"]
  note t2 = commit_before_handler_and_children
    [OF refl, where e = "exEnv True False" and c = 0 and s = 1 and r = exRun
       and r' = r' and r'' = r'' and kids = "[]"]
  from t1 p have "\<exists>nm. trace r' = [Committed 0, Advanced 3, Invoked 0 nm]"
    by (auto simp: exRun_simps)
  moreover from t2 q have "\<exists>rest. trace r'' = Committed 0 # Advanced 1 # rest"
    by (auto simp: exRun_simps)
  moreover have "case propagateState (exEnv True False) 0 exKids 1 exRun of
      Inl err \<Rightarrow> False
    | Inr r'' \<Rightarrow> \<exists>rest. trace r'' = Committed 0 # Advanced 1 # rest"
  proof -
    from exKids_propagation_runs obtain rk where
      k: "propagateState (exEnv True False) 0 exKids 1 exRun = Inr rk"
      by blast
    from commit_before_handler_and_children
      [OF refl, where e = "exEnv True False" and c = 0 and s = 1 and r = exRun
         and r' = r' and r'' = rk and kids = exKids] k
    have "\<exists>rest. trace rk = Committed 0 # Advanced 1 # rest"
      by (auto simp: exRun_simps)
    with k show ?thesis by simp
  qed
  moreover from t1 have
    "c_currentState (ctrls (hp (nextState 3 (setCurrentState 0 3 exRun))) 0) = Some 4"
    "c_previousState (ctrls (hp (nextState 3 (setCurrentState 0 3 exRun))) 0) = Some 0"
    by (simp_all add: exRun_simps exHeap_fields exHeap_main)
  ultimately show ?thesis using p q by simp
qed

text \<open>
  Claim C7, as the code has it. Let the local name left after the advance be non-empty
  and not one of the names a plain object inherits from \<open>Object.prototype\<close>. Then
  \<open>_propagateState\<close> recurses into the first downlink, in declared order, that is a
  controller declaring the name, whatever follows it in the list, and its outcome is
  the outcome of that one \<open>delegateState\<close>. When no downlink declares the name, a debug
  build emits the \<open>No child controller declared\<close> warning and a non-debug build emits
  nothing; nothing else happens after the commit and the advance.
\<close>

theorem propagation_first_child:
  assumes "r2 = nextState s (setCurrentState c s r)"
    and "name = getName (descs (hp r2) s)"
    and "name \<noteq> []"
    and "\<not> inherited e name"
  shows "((\<forall>j \<in> set pre. \<not> declares (hp r2) name j) \<and> c_states (ctrls (hp r2) k) name \<noteq> None \<longrightarrow>
           propagateState e c (pre @ ControllerNode k kk # post) s r =
             (case delegateState e k kk (StateObject s) r2 of
                Inl err \<Rightarrow> Inl err
              | Inr (ret, r') \<Rightarrow> Inr r'))
       \<and> ((\<forall>j \<in> set kids. \<not> declares (hp r2) name j) \<longrightarrow>
           propagateState e c kids s r =
             Inr (if debug e then warn (NoChildDeclared (c_name (ctrls (hp r2) c)) name) r2
                  else r2))"
  using assms propagateLoop_skip [of name e pre r2 c s "ControllerNode k kk # post"]
    propagateLoop_skip [of name e kids r2 c s "[]"]
  by (auto simp: accepts_def found_def propagateState.simps Let_def)

theorem propagation_first_child_witness:
  "propagateState (exEnv True False) 0 exKids 1 exRun =
     (case delegateState (exEnv True False) 1 [] (StateObject 1)
             (nextState 1 (setCurrentState 0 1 exRun)) of
        Inl err \<Rightarrow> Inl err
      | Inr (ret, r') \<Rightarrow> Inr r')
   \<and> propagateState (exEnv True False) 0 [OtherJoint] 1 exRun =
       Inr (warn (NoChildDeclared ''main'' ''item'') (nextState 1 (setCurrentState 0 1 exRun)))"
proof -
  define r2 where "r2 = nextState 1 (setCurrentState 0 1 exRun)"
  have nm: "''item'' = getName (descs (hp r2) 1)"
    by (simp add: r2_def exCommitted exHeap_fields exDesc_names)
  have ne: "''item'' \<noteq> []" by simp
  have ni: "\<not> inherited (exEnv True False) ''item''"
    by (simp add: exEnv_simps)
  note t = propagation_first_child [OF r2_def nm ne ni]
  have "propagateState (exEnv True False) 0 exKids 1 exRun =
     (case delegateState (exEnv True False) 1 [] (StateObject 1) r2 of
        Inl err \<Rightarrow> Inl err
      | Inr (ret, r') \<Rightarrow> Inr r')"
    using t [where pre = "[OtherJoint]" and k = 1 and kk = "[]" and post = "[ControllerNode 2 []]"]
    by (simp add: exKids_def declares_def r2_def exCommitted exHeap_fields exChild_fields)
  moreover have "propagateState (exEnv True False) 0 [OtherJoint] 1 exRun =
       Inr (warn (NoChildDeclared ''main'' ''item'') r2)"
    using t [where kids = "[OtherJoint]"]
    by (simp add: declares_def r2_def exCommitted exHeap_main exMain_fields exEnv_simps)
  ultimately show ?thesis by (simp add: r2_def)
qed

text \<open>
  The claim as stated fails in a non-debug build: \<open>main\<close> without children propagates
  the remaining name \<open>item\<close>, no child declares it, and the trace holds the commit and
  the advance only, no diagnostic.
\<close>

theorem non_debug_no_diagnostic_counterexample:
  "getName (descs (hp (nextState 1 (setCurrentState 0 1 exRun))) 1) = ''item''
   \<and> (case propagateState (exEnv False False) 0 [] 1 exRun of
         Inl err \<Rightarrow> [Warned (NoChildDeclared ''main'' ''item'')]
       | Inr r' \<Rightarrow> trace r') = [Committed 0, Advanced 1]"
  by (simp add: propagateState.simps Let_def exCommitted exHeap_fields exDesc_names exEnv_simps
      trace_nextState trace_setCurrentState exRun_simps)

text \<open>
  Claim C9. In a heap whose stored references are allocated, \<open>_setCurrentState\<close> on
  an allocated descriptor \<open>s\<close> makes \<open>_currentState\<close> the new address \<open>a\<close>, holding a
  copy of \<open>s\<close>; every other descriptor is as before; \<open>a\<close> is not \<open>s\<close>, not the
  registry's current descriptor, not the previous state of the controller and not a
  current or previous state of any other controller; \<open>state.next()\<close> does not touch it.
  The reconciliation step changes no controller, no parameter mapping and no cursor:
  at most it replaces the full name of the controller's current state by the full name
  of the delegated descriptor.
\<close>

theorem current_state_is_fresh_copy:
  assumes "wfHeap (hp r)" and "s < nextSid (hp r)"
    and "r1 = setCurrentState c s r" and "a = nextSid (hp r)"
  shows "c_currentState (ctrls (hp r1) c) = Some a
       \<and> descs (hp r1) a = descs (hp r) s
       \<and> (\<forall>x. x \<noteq> a \<longrightarrow> descs (hp r1) x = descs (hp r) x)
       \<and> a \<noteq> s
       \<and> regCurrent (hp r1) \<noteq> Some a
       \<and> c_previousState (ctrls (hp r1) c) \<noteq> Some a
       \<and> (\<forall>k. k \<noteq> c \<longrightarrow> c_currentState (ctrls (hp r1) k) \<noteq> Some a
                        \<and> c_previousState (ctrls (hp r1) k) \<noteq> Some a)
       \<and> descs (hp (nextState s r1)) a = descs (hp r1) a
       \<and> (\<forall>x. st_params (descs (hp (syncFullName c sx name rx)) x) = st_params (descs (hp rx) x)
              \<and> st_cursor (descs (hp (syncFullName c sx name rx)) x) = st_cursor (descs (hp rx) x)
              \<and> (st_fullName (descs (hp (syncFullName c sx name rx)) x)
                     = st_fullName (descs (hp rx) x)
                   \<or> st_fullName (descs (hp (syncFullName c sx name rx)) x)
                     = st_fullName (descs (hp rx) sx))
              \<and> (c_currentState (ctrls (hp rx) c) \<noteq> Some x \<longrightarrow>
                   descs (hp (syncFullName c sx name rx)) x = descs (hp rx) x))
       \<and> ctrls (hp (syncFullName c sx name rx)) = ctrls (hp rx)"
proof -
  have sync: "\<forall>x. st_params (descs (hp (syncFullName c sx name rx)) x) = st_params (descs (hp rx) x)
              \<and> st_cursor (descs (hp (syncFullName c sx name rx)) x) = st_cursor (descs (hp rx) x)
              \<and> (st_fullName (descs (hp (syncFullName c sx name rx)) x)
                     = st_fullName (descs (hp rx) x)
                   \<or> st_fullName (descs (hp (syncFullName c sx name rx)) x)
                     = st_fullName (descs (hp rx) sx))
              \<and> (c_currentState (ctrls (hp rx) c) \<noteq> Some x \<longrightarrow>
                   descs (hp (syncFullName c sx name rx)) x = descs (hp rx) x)"
    by (auto simp: syncFullName_def setFullName_def split: option.splits)
  have sync2: "ctrls (hp (syncFullName c sx name rx)) = ctrls (hp rx)"
    by (auto simp: syncFullName_def split: option.splits)
  have ne: "a \<noteq> s" using assms(2,4) by simp
  have cur: "c_currentState (ctrls (hp r1) c) = Some a"
    by (simp add: assms(3,4) setCurrentState_def clone_def Let_def)
  have cp: "descs (hp r1) a = descs (hp r) s"
    using ne by (auto simp add: assms(3,4) setCurrentState_def clone_def Let_def)
  have old: "\<forall>x. x \<noteq> a \<longrightarrow> descs (hp r1) x = descs (hp r) x"
    by (auto simp add: assms(3,4) setCurrentState_def clone_def Let_def)
  have reg: "regCurrent (hp r1) \<noteq> Some a"
    using assms(1) by (auto simp add: assms(3,4) setCurrentState_def clone_def Let_def wfHeap_def)
  have prev: "c_previousState (ctrls (hp r1) c) \<noteq> Some a"
    using assms(1) by (auto simp add: assms(3,4) setCurrentState_def clone_def Let_def wfHeap_def)
  have others: "\<forall>k. k \<noteq> c \<longrightarrow> c_currentState (ctrls (hp r1) k) \<noteq> Some a
                        \<and> c_previousState (ctrls (hp r1) k) \<noteq> Some a"
    using assms(1) by (auto simp add: assms(3,4) setCurrentState_def clone_def Let_def wfHeap_def)
  have nx: "descs (hp (nextState s r1)) a = descs (hp r1) a"
    using ne by (simp add: nextState_def)
  from sync sync2 ne cur cp old reg prev others nx show ?thesis by blast
qed

theorem current_state_is_fresh_copy_witness:
  "c_currentState (ctrls (hp (setCurrentState 0 1 exRun)) 0) = Some 4
   \<and> descs (hp (setCurrentState 0 1 exRun)) 4 = descs exHeap 1
   \<and> regCurrent (hp (setCurrentState 0 1 exRun)) = Some 1
   \<and> c_currentState (ctrls (hp (setCurrentState 0 1 exRun)) 1) \<noteq> Some 4
   \<and> st_params (descs (hp (syncFullName 0 1 ''list''
        (nextState 1 (setCurrentState 0 1 exRun)))) 4) = st_params (descs exHeap 1)
   \<and> st_cursor (descs (hp (syncFullName 0 1 ''list''
        (nextState 1 (setCurrentState 0 1 exRun)))) 4) = 0"
proof -
  have wf: "wfHeap (hp exRun)" by (simp add: exRun_simps wfHeap_exHeap)
  have lt: "1 < nextSid (hp exRun)" by (simp add: exRun_simps exHeap_fields)
  have a: "4 = nextSid (hp exRun)" by (simp add: exRun_simps exHeap_fields)
  note t = current_state_is_fresh_copy [OF wf lt refl a, where c = 0 and sx = 1
      and name = "''list''" and rx = "nextState 1 (setCurrentState 0 1 exRun)"]
  have reg: "regCurrent (hp (setCurrentState 0 1 exRun)) = Some 1"
    by (simp add: setCurrentState_def clone_def Let_def exRun_simps exHeap_fields)
  from t have c1: "c_currentState (ctrls (hp (setCurrentState 0 1 exRun)) 0) = Some 4"
      and c2: "descs (hp (setCurrentState 0 1 exRun)) 4 = descs exHeap 1"
      and c3: "c_currentState (ctrls (hp (setCurrentState 0 1 exRun)) 1) \<noteq> Some 4"
      and c4: "descs (hp (nextState 1 (setCurrentState 0 1 exRun))) 4
                 = descs (hp (setCurrentState 0 1 exRun)) 4"
      and c5: "st_params (descs (hp (syncFullName 0 1 ''list''
          (nextState 1 (setCurrentState 0 1 exRun)))) 4)
          = st_params (descs (hp (nextState 1 (setCurrentState 0 1 exRun))) 4)"
      and c6: "st_cursor (descs (hp (syncFullName 0 1 ''list''
          (nextState 1 (setCurrentState 0 1 exRun)))) 4)
          = st_cursor (descs (hp (nextState 1 (setCurrentState 0 1 exRun))) 4)"
    by (simp_all add: exRun_simps)
  from c5 c6 c4 c2 have
    "st_params (descs (hp (syncFullName 0 1 ''list''
        (nextState 1 (setCurrentState 0 1 exRun)))) 4) = st_params (descs exHeap 1)"
    "st_cursor (descs (hp (syncFullName 0 1 ''list''
        (nextState 1 (setCurrentState 0 1 exRun)))) 4) = 0"
    by (simp_all add: exHeap_fields exDesc_def)
  with c1 c2 c3 reg show ?thesis by simp
qed

section \<open>Properties of \<open>setState\<close>\<close>

text \<open>
  Claim C5. When the resolved state has a \<open>name\<close> field, its full name is registered
  and \<open>setCurrent\<close> returns: if it reports a change, \<open>setState\<close> returns the instance
  at once, with the heap \<open>setCurrent\<close> left and an unchanged trace (no delegation); if
  it reports no change, \<open>setState\<close> is \<open>delegateState\<close> on the registry's current
  descriptor, in the heap \<open>setCurrent\<close> left except that this descriptor has been
  sought to the resolved local name: no descriptor has been allocated.
\<close>

theorem setState_registered:
  assumes "resolveState e (hp r) c ups name ps = Inr meta"
    and "m_name meta = Some nm"
    and "registered (hp r) (m_fullName meta)"
    and "setCurrent e (m_fullName meta) (m_params meta) opts (hp r) = Inr (changed, h')"
  shows "(changed \<longrightarrow> setState e c ups kids name ps opts r = Inr (Some c, r\<lparr>hp := h'\<rparr>))
       \<and> (\<not> changed \<and> regCurrent h' = Some g \<longrightarrow>
            setState e c ups kids name ps opts r =
              delegateState e c kids (StateObject g) (grabGlobalState nm g h' r)
            \<and> nextSid (hp (grabGlobalState nm g h' r)) = nextSid h'
            \<and> descs (hp (grabGlobalState nm g h' r)) g = seekTo nm (descs h' g)
            \<and> (\<forall>x. x \<noteq> g \<longrightarrow> descs (hp (grabGlobalState nm g h' r)) x = descs h' x)
            \<and> trace (grabGlobalState nm g h' r) = trace r)"
  using assms by (simp add: setState_def grabGlobalState_def)

theorem setState_registered_witness:
  "setState (exEnv True True) 1 [UpController 0] [] ''item'' Map.empty Map.empty exRun
     = Inr (Some 1, exRun)
   \<and> setState (exEnv True False) 1 [UpController 0] [] ''item'' Map.empty Map.empty exRun
     = delegateState (exEnv True False) 1 [] (StateObject 1)
         (grabGlobalState ''item'' 1 exHeap exRun)
   \<and> nextSid (hp (grabGlobalState ''item'' 1 exHeap exRun)) = 4
   \<and> getName (descs (hp (grabGlobalState ''item'' 1 exHeap exRun)) 1) = ''item''"
proof -
  have reg: "registered (hp exRun) ''list.item''"
    by (simp add: exRun_simps exHeap_fields)
  have res: "\<And>chg. resolveState (exEnv True chg) (hp exRun) 1 [UpController 0] ''item'' Map.empty =
     Inr \<lparr>m_name = Some ''item'', m_fullName = ''list.item'', m_params = [''page'' \<mapsto> Num 3]\<rparr>"
    using exChild_resolves_item by (simp add: exRun_simps)
  have sc: "\<And>chg. setCurrent (exEnv True chg) ''list.item'' [''page'' \<mapsto> Num 3] Map.empty (hp exRun)
      = Inr (chg, exHeap)"
    by (simp add: exEnv_simps exRun_simps)
  have "setState (exEnv True True) 1 [UpController 0] [] ''item'' Map.empty Map.empty exRun
     = Inr (Some 1, exRun)"
    using setState_registered [OF res [of True], where changed = True and h' = exHeap
        and nm = "''item''" and opts = Map.empty and kids = "[]"] reg sc [of True]
    by (simp add: exRun_def)
  moreover have "setState (exEnv True False) 1 [UpController 0] [] ''item'' Map.empty Map.empty exRun
     = delegateState (exEnv True False) 1 [] (StateObject 1)
         (grabGlobalState ''item'' 1 exHeap exRun)
     \<and> nextSid (hp (grabGlobalState ''item'' 1 exHeap exRun)) = 4"
    using setState_registered [OF res [of False], where changed = False and h' = exHeap
        and nm = "''item''" and opts = Map.empty and kids = "[]" and g = 1] reg sc [of False]
    by (simp add: exHeap_fields)
  moreover have "getName (descs (hp (grabGlobalState ''item'' 1 exHeap exRun)) 1) = ''item''"
    by (simp add: grabGlobalState_def exHeap_fields seekTo_def exDesc_def segments_def
        getName_def)
  ultimately show ?thesis by simp
qed

text \<open>
  Claim C10. Whenever \<open>delegateState\<close> takes one of its two no-op branches (after
  default filling the descriptor has no local name, or the read of its local name in
  the state table finds nothing) it returns \<open>undefined\<close>, not the instance; and a
  \<open>setState\<close> that reaches \<open>delegateState\<close> in such a case, with a newly created state
  or with the registry's current one, returns \<open>undefined\<close> too.
\<close>

theorem noop_returns_undefined:
  "(pickState (hp r) arg = Some s \<and> noopAt e c s r \<longrightarrow>
      (\<exists>r'. delegateState e c kids arg r = Inr (None, r')))
   \<and> (resolveState e (hp r) c ups name ps = Inr meta \<and> m_name meta = Some nm
        \<and> \<not> registered (hp r) (m_fullName meta)
        \<and> createLocalState c nm (m_params meta) r = (a, rd) \<and> noopAt e c a rd \<longrightarrow>
      (\<exists>r'. setState e c ups kids name ps opts r = Inr (None, r')))
   \<and> (resolveState e (hp r) c ups name ps = Inr meta \<and> m_name meta = Some nm
        \<and> registered (hp r) (m_fullName meta)
        \<and> setCurrent e (m_fullName meta) (m_params meta) opts (hp r) = Inr (False, h')
        \<and> regCurrent h' = Some g \<and> noopAt e c g (grabGlobalState nm g h' r) \<longrightarrow>
      (\<exists>r'. setState e c ups kids name ps opts r = Inr (None, r')))"
proof (intro conjI impI)
  assume "pickState (hp r) arg = Some s \<and> noopAt e c s r"
  then show "\<exists>r'. delegateState e c kids arg r = Inr (None, r')"
    using delegate_noop_undefined by blast
next
  assume a: "resolveState e (hp r) c ups name ps = Inr meta \<and> m_name meta = Some nm
        \<and> \<not> registered (hp r) (m_fullName meta)
        \<and> createLocalState c nm (m_params meta) r = (a, rd) \<and> noopAt e c a rd"
  then have "setState e c ups kids name ps opts r = delegateState e c kids (StateObject a) rd"
    by (simp add: setState_def)
  moreover have "pickState (hp rd) (StateObject a) = Some a"
    by (simp add: pickState_def)
  ultimately show "\<exists>r'. setState e c ups kids name ps opts r = Inr (None, r')"
    using a delegate_noop_undefined [of rd "StateObject a" a e c kids] by simp
next
  assume a: "resolveState e (hp r) c ups name ps = Inr meta \<and> m_name meta = Some nm
        \<and> registered (hp r) (m_fullName meta)
        \<and> setCurrent e (m_fullName meta) (m_params meta) opts (hp r) = Inr (False, h')
        \<and> regCurrent h' = Some g \<and> noopAt e c g (grabGlobalState nm g h' r)"
  then have "setState e c ups kids name ps opts r =
      delegateState e c kids (StateObject g) (grabGlobalState nm g h' r)"
    by (simp add: setState_def)
  moreover have "pickState (hp (grabGlobalState nm g h' r)) (StateObject g) = Some g"
    by (simp add: pickState_def)
  ultimately show "\<exists>r'. setState e c ups kids name ps opts r = Inr (None, r')"
    using a delegate_noop_undefined [of "grabGlobalState nm g h' r" "StateObject g" g e c kids]
    by simp
qed

theorem noop_returns_undefined_witness:
  "(\<exists>r'. delegateState (exEnv True False) 0 exKids (StateObject 2) exRun = Inr (None, r'))
   \<and> (\<exists>r'. setState (exEnv True False) 1 [UpController 0] [] [] Map.empty Map.empty exRun
          = Inr (None, r'))
   \<and> (\<exists>r'. setState (exEnv True False) 1 [] [] ''nope'' Map.empty Map.empty
            (exRun\<lparr>hp := exHeap\<lparr>regCurrent := Some 2, registered := \<lambda>n. n = ''nope''\<rparr>\<rparr>)
          = Inr (None, r'))"
proof -
  have "\<exists>r'. delegateState (exEnv True False) 0 exKids (StateObject 2) exRun = Inr (None, r')"
    using noop_returns_undefined
      [where r = exRun and arg = "StateObject 2" and s = 2 and c = 0
         and e = "exEnv True False" and kids = exKids]
    by (simp add: pickState_def noopAt_def found_def exEnv_simps exRun_simps exHeap_main
        exHeap_fields fillStateIfEmpty_def exMain_fields exDesc_names)
  moreover
  have "\<exists>r'. setState (exEnv True False) 1 [UpController 0] [] [] Map.empty Map.empty exRun
          = Inr (None, r')"
  proof -
    define a where "a = fst (createLocalState 1 [] [''page'' \<mapsto> Num 3] exRun)"
    define r1 where "r1 = snd (createLocalState 1 [] [''page'' \<mapsto> Num 3] exRun)"
    have cr: "createLocalState 1 [] [''page'' \<mapsto> Num 3] exRun = (a, r1)"
      by (simp add: a_def r1_def)
    have noop: "noopAt (exEnv True False) 1 a r1"
      by (simp add: a_def r1_def createLocalState_def createStateInstance_def noopAt_def
          exRun_simps exHeap_fields fillStateIfEmpty_def exChild_fields getName_def segments_def)
    show ?thesis
      using noop_returns_undefined
        [where r = exRun and c = 1 and ups = "[UpController 0]" and name = "[]"
           and ps = Map.empty and e = "exEnv True False" and nm = "[]" and a = a and rd = r1
           and meta = "\<lparr>m_name = Some [], m_fullName = ''list'',
                          m_params = [''page'' \<mapsto> Num 3]\<rparr>"
           and opts = Map.empty and kids = "[]"]
        exChild_resolves_empty [of True False] cr noop
      by (simp add: exRun_simps exHeap_fields)
  qed
  moreover
  have "\<exists>r'. setState (exEnv True False) 1 [] [] ''nope'' Map.empty Map.empty
            (exRun\<lparr>hp := exHeap\<lparr>regCurrent := Some 2, registered := \<lambda>n. n = ''nope''\<rparr>\<rparr>)
          = Inr (None, r')"
  proof -
    define h where "h = exHeap\<lparr>regCurrent := Some 2, registered := \<lambda>n. n = ''nope''\<rparr>"
    have sought: "seekTo ''nope'' (exDesc ''nope'' Map.empty) = exDesc ''nope'' Map.empty"
      by (simp add: seekTo_def exDesc_def segments_def)
    have noop: "noopAt (exEnv True False) 1 2 (grabGlobalState ''nope'' 2 h (exRun\<lparr>hp := h\<rparr>))"
      by (simp add: h_def noopAt_def found_def exEnv_simps grabGlobalState_def exHeap_fields
          fillStateIfEmpty_def exChild_fields sought exDesc_names)
    show ?thesis
      using noop_returns_undefined
        [where r = "exRun\<lparr>hp := h\<rparr>" and c = 1 and ups = "[]"
           and name = "''nope''" and ps = Map.empty and e = "exEnv True False"
           and nm = "''nope''" and h' = h and g = 2
           and meta = "\<lparr>m_name = Some ''nope'', m_fullName = ''nope'',
                          m_params = Map.empty\<rparr>"
           and opts = Map.empty and kids = "[]"]
        exChild_resolves_nope [of True False] noop
      by (simp add: h_def exEnv_simps exHeap_fields)
  qed
  ultimately show ?thesis by blast
qed

end
